theory Spec2Isabelle
  imports Complex_Main "HOL-Library.AList"
begin

section \<open>Python string primitives used by the credential code\<close>

text \<open>
  Strings are lists of characters. The functions below follow the Python built-ins that
  \<^verbatim>\<open>utils/token.py\<close> and \<^verbatim>\<open>main.py\<close> call on the credential line and on configuration
  values: \<^verbatim>\<open>str.startswith\<close>, \<^verbatim>\<open>str.split(":")\<close>, \<^verbatim>\<open>str.strip()\<close>, \<^verbatim>\<open>str.lower()\<close>,
  the substring test \<^verbatim>\<open>"token" in s\<close>, \<^verbatim>\<open>int(s)\<close> and \<^verbatim>\<open>str(n)\<close>.
\<close>

definition startswith :: "string \<Rightarrow> string \<Rightarrow> bool" where
  "startswith s p = (take (length p) s = p)"

text \<open>\<^verbatim>\<open>s.split(c)\<close>: the pieces between the separators; an empty string gives one empty piece.\<close>

fun split_on :: "char \<Rightarrow> string \<Rightarrow> string list" where
  "split_on c [] = [[]]"
| "split_on c (x # xs) =
     (if x = c then [] # split_on c xs
      else (case split_on c xs of
              [] \<Rightarrow> [[x]]
            | p # ps \<Rightarrow> (x # p) # ps))"

text \<open>\<^verbatim>\<open>sep.join(parts)\<close>.\<close>

fun str_join :: "string \<Rightarrow> string list \<Rightarrow> string" where
  "str_join sep [] = []"
| "str_join sep [p] = p"
| "str_join sep (p # q # ps) = p @ sep @ str_join sep (q # ps)"

text \<open>
  \<^verbatim>\<open>str.isspace\<close> on one character, for the code points below 256: tab to carriage return,
  the four separators 28..31, space, NEL (133) and the no-break space (160).
\<close>

definition isspace :: "char \<Rightarrow> bool" where
  "isspace c =
     (let n = (of_char c :: nat)
      in (9 \<le> n \<and> n \<le> 13) \<or> (28 \<le> n \<and> n \<le> 32) \<or> n = 133 \<or> n = 160)"

definition strip :: "string \<Rightarrow> string" where
  "strip s = rev (dropWhile isspace (rev (dropWhile isspace s)))"

text \<open>The right half of \<^const>\<open>strip\<close>: trailing whitespace dropped.\<close>

definition rstrip :: "string \<Rightarrow> string" where
  "rstrip s = rev (dropWhile isspace (rev s))"

text \<open>The substring of \<open>s\<close> after its last \<open>c\<close> (all of \<open>s\<close> when it has none).\<close>

definition after_last :: "char \<Rightarrow> string \<Rightarrow> string" where
  "after_last c s = rev (takeWhile (\<lambda>x. x \<noteq> c) (rev s))"

text \<open>
  What a file opened in text mode gives back for the characters stored in it: a carriage
  return, alone or followed by a line feed, is read as one line feed.
\<close>

function universal_newlines :: "string \<Rightarrow> string" where
  "universal_newlines [] = []"
| "universal_newlines (c # cs) =
     (if c = CHR 0x0D
      then CHR 0x0A # universal_newlines (if take 1 cs = [CHR 0x0A] then drop 1 cs else cs)
      else c # universal_newlines cs)"
  by pat_completeness auto
termination
  by (relation "measure length") auto

text \<open>\<^verbatim>\<open>str.lower()\<close> on the ASCII letters.\<close>

definition lower_char :: "char \<Rightarrow> char" where
  "lower_char c =
     (let n = (of_char c :: nat)
      in if 65 \<le> n \<and> n \<le> 90 then char_of (n + 32) else c)"

definition lower :: "string \<Rightarrow> string" where
  "lower s = map lower_char s"

text \<open>\<^verbatim>\<open>needle in s\<close> for strings: some suffix of \<open>s\<close> starts with the needle.\<close>

fun contains :: "string \<Rightarrow> string \<Rightarrow> bool" where
  "contains [] needle = (needle = [])"
| "contains (x # xs) needle = (startswith (x # xs) needle \<or> contains xs needle)"

subsection \<open>Decimal integers: \<^verbatim>\<open>str(n)\<close> and \<^verbatim>\<open>int(s)\<close>\<close>

definition is_digit :: "char \<Rightarrow> bool" where
  "is_digit c = (let n = (of_char c :: nat) in 48 \<le> n \<and> n \<le> 57)"

definition digit_val :: "char \<Rightarrow> nat" where
  "digit_val c = of_char c - 48"

definition digit_char :: "nat \<Rightarrow> char" where
  "digit_char d = char_of (48 + d)"

function digits_of_nat :: "nat \<Rightarrow> string" where
  "digits_of_nat n =
     (if n < 10 then [digit_char n]
      else digits_of_nat (n div 10) @ [digit_char (n mod 10)])"
  by pat_completeness auto
termination
  by (relation "measure (\<lambda>n. n)") auto

declare digits_of_nat.simps [simp del]

definition nat_of_digits :: "string \<Rightarrow> nat" where
  "nat_of_digits ds = foldl (\<lambda>a c. 10 * a + digit_val c) 0 ds"

text \<open>\<^verbatim>\<open>str(n)\<close> for a Python int.\<close>

definition str_int :: "int \<Rightarrow> string" where
  "str_int i = (if i < 0 then CHR ''-'' # digits_of_nat (nat (- i)) else digits_of_nat (nat i))"

text \<open>
  The digits of an integer literal as \<^verbatim>\<open>int()\<close> accepts them: groups of decimal digits,
  separated by single underscores, no group empty.
\<close>

definition parse_digits :: "string \<Rightarrow> nat option" where
  "parse_digits s =
     (let groups = split_on CHR ''_'' s
      in if (\<forall>g \<in> set groups. g \<noteq> [] \<and> (\<forall>c \<in> set g. is_digit c))
         then Some (nat_of_digits (concat groups))
         else None)"

text \<open>
  The whitespace \<^verbatim>\<open>int()\<close> drops around a literal: that of \<^verbatim>\<open>strip()\<close> without the four
  separators 28..31, which \<^verbatim>\<open>int()\<close> refuses.
\<close>

definition int_space :: "char \<Rightarrow> bool" where
  "int_space c =
     (let n = (of_char c :: nat)
      in (9 \<le> n \<and> n \<le> 13) \<or> n = 32 \<or> n = 133 \<or> n = 160)"

text \<open>
  \<^verbatim>\<open>int(s)\<close> in base 10: surrounding whitespace is dropped, one sign is allowed;
  \<open>None\<close> is the \<^verbatim>\<open>ValueError\<close>. CPython's limit of 4300 digits on a conversion between
  \<^verbatim>\<open>int\<close> and \<^verbatim>\<open>str\<close> is not modelled: the integers here are clock readings.
\<close>

definition py_int :: "string \<Rightarrow> int option" where
  "py_int s =
     (case rev (dropWhile int_space (rev (dropWhile int_space s))) of
        [] \<Rightarrow> None
      | c # r \<Rightarrow>
          if c = CHR ''-'' then map_option (\<lambda>n. - int n) (parse_digits r)
          else if c = CHR ''+'' then map_option int (parse_digits r)
          else map_option int (parse_digits (c # r)))"

section \<open>Configuration documents, exceptions and the outside world\<close>

text \<open>
  A configuration value as \<^verbatim>\<open>json.load\<close> delivers it (the values of the configuration
  file are scalars; a number is an integer here, fractions are not modelled), and a JSON
  object as the Python dict it becomes: an association list, looked up with
  \<^const>\<open>map_of\<close>.
\<close>

datatype json = JNull | JBool bool | JNum int | JStr string

type_synonym config = "(string \<times> json) list"

definition has_key :: "config \<Rightarrow> string \<Rightarrow> bool" where
  "has_key d k = (map_of d k \<noteq> None)"

text \<open>\<^verbatim>\<open>d.get(k, default)\<close>.\<close>

definition get_or :: "config \<Rightarrow> string \<Rightarrow> json \<Rightarrow> json" where
  "get_or d k dflt = (case map_of d k of None \<Rightarrow> dflt | Some v \<Rightarrow> v)"

text \<open>Python truthiness of a value, as in \<^verbatim>\<open>if token_file_path:\<close>.\<close>

fun truthy :: "json \<Rightarrow> bool" where
  "truthy JNull = False"
| "truthy (JBool b) = b"
| "truthy (JNum n) = (n \<noteq> 0)"
| "truthy (JStr s) = (s \<noteq> [])"

text \<open>\<^verbatim>\<open>str(v)\<close>, which an f-string applies to the value it formats.\<close>

fun py_str :: "json \<Rightarrow> string" where
  "py_str JNull = ''None''"
| "py_str (JBool b) = (if b then ''True'' else ''False'')"
| "py_str (JNum n) = str_int n"
| "py_str (JStr s) = s"

text \<open>\<^verbatim>\<open>now + v\<close> for an int \<open>now\<close>: only numbers and booleans add; the rest is a TypeError.\<close>

fun as_number :: "json \<Rightarrow> int option" where
  "as_number (JNum n) = Some n"
| "as_number (JBool b) = Some (if b then 1 else 0)"
| "as_number _ = None"

text \<open>\<^verbatim>\<open>str(KeyError(k))\<close> is the key in single quotes.\<close>

definition quoted :: "string \<Rightarrow> string" where
  "quoted k = CHR 0x27 # k @ [CHR 0x27]"

text \<open>
  The exceptions that reach \<^verbatim>\<open>load_config\<close> and the scheduler. \<^verbatim>\<open>HTTPError\<close> carries the
  status code of its response and the response's JSON body, if it has one.
  \<^verbatim>\<open>json.JSONDecodeError\<close> is a \<^verbatim>\<open>ValueError\<close>; \<^verbatim>\<open>IOError\<close> and \<^verbatim>\<open>FileNotFoundError\<close> are
  \<^verbatim>\<open>OSError\<close>. A message is kept where the code looks into it (the handler of
  \<^verbatim>\<open>load_config\<close> searches \<^verbatim>\<open>str(e)\<close> for "token"); the long messages of the source are
  shortened.
\<close>

datatype exn =
    ConfigurationError string
  | SSLError
  | HTTPError nat "config option"
  | ConnectionError
  | Timeout
  | RequestException
  | ValueError string
  | KeyError string
  | RuntimeError string
  | OSError
  | AttributeError
  | TypeError

text \<open>What \<^verbatim>\<open>requests.post\<close> to the token endpoint comes back with.\<close>

datatype reply =
    Response nat "config option"
  | SSLFailure
  | ConnectionFailure
  | TimeoutFailure
  | OtherFailure

record request =
  url :: string
  client_id :: json
  client_secret :: json
  redirect_uri :: string
  verify :: bool

text \<open>What opening and parsing the configuration file gives.\<close>

datatype config_source = Unreadable | Unparsable string | Document config

text \<open>
  The world outside the process: the files by path (paths are taken as absolute, so
  \<^verbatim>\<open>os.path.abspath\<close> leaves them as they are; a missing file is the only I/O failure
  modelled), the clock as \<^verbatim>\<open>int(time.time())\<close> reads it (one reading for the length of a
  call), the token endpoint as a function of how many requests it has answered, the
  requests sent so far, and the configuration file as \<^verbatim>\<open>json.load\<close> reads it.
\<close>

record world =
  files :: "string \<Rightarrow> string option"
  now :: int
  endpoint :: "nat \<Rightarrow> reply"
  requests :: "request list"
  config_doc :: config_source

section \<open>\<^verbatim>\<open>utils/token.py\<close>\<close>

text \<open>
  \<^verbatim>\<open>open(path, "r").read()\<close>: the stored characters as text mode delivers them (the
  encoding is taken to give every character back; writing in text mode stores the
  characters as they are, as on a POSIX system).
\<close>

definition read_text :: "world \<Rightarrow> string \<Rightarrow> string option" where
  "read_text w path = map_option universal_newlines (files w path)"

definition safe_read_token_file :: "world \<Rightarrow> string \<Rightarrow> exn + string" where
  "safe_read_token_file w token_file_path =
     (case read_text w token_file_path of
        None \<Rightarrow> Inl (ValueError ''Failed to read token file: FileNotFoundError'')
      | Some content \<Rightarrow>
          (let token_data = strip content
           in if token_data = [] then Inl (ValueError ''Token file is empty'')
              else (let parts = split_on CHR '':'' token_data
                    in if length parts < 3
                       then Inl (ValueError
                              (''Invalid token format: expected 3 colon-separated parts, got ''
                                @ str_int (int (length parts))))
                       else Inr token_data)))"

text \<open>
  The token URL of \<^verbatim>\<open>generate_token\<close>: a host that does not start with \<^verbatim>\<open>https://\<close>
  gets that prefix.
\<close>

definition token_host :: "string \<Rightarrow> string" where
  "token_host voipnow_host =
     (if \<not> startswith voipnow_host ''https://'' then ''https://'' @ voipnow_host
      else voipnow_host)"

definition token_url :: "string \<Rightarrow> string" where
  "token_url voipnow_host = token_host voipnow_host @ ''/oauth/token.php''"

text \<open>The line \<^verbatim>\<open>generate_token\<close> writes: \<^verbatim>\<open>f"{now}:{now + expires_in}:{access_token}"\<close>.\<close>

definition token_line :: "int \<Rightarrow> int \<Rightarrow> string \<Rightarrow> string" where
  "token_line issued expires secret = str_int issued @ '':'' @ str_int expires @ '':'' @ secret"

text \<open>
  The atomic write: the data goes to \<^verbatim>\<open>path + ".tmp"\<close>, which is then renamed over the
  path.
\<close>

definition write_atomic ::
  "string \<Rightarrow> string \<Rightarrow> (string \<Rightarrow> string option) \<Rightarrow> (string \<Rightarrow> string option)" where
  "write_atomic path data fs = (fs(path @ ''.tmp'' := None))(path \<mapsto> data)"

text \<open>Lines 113 to 133 of \<^verbatim>\<open>generate_token\<close>: the credential line goes to the token file.\<close>

definition write_token_file :: "string \<Rightarrow> string \<Rightarrow> world \<Rightarrow> world" where
  "write_token_file token_file_path token_data w =
     w\<lparr>files := write_atomic token_file_path token_data (files w)\<rparr>"

text \<open>
  \<^verbatim>\<open>requests.post\<close> followed by \<^verbatim>\<open>raise_for_status()\<close> and \<^verbatim>\<open>response.json()\<close>: the
  request is recorded, and the endpoint's answer is either an exception or the JSON body.
\<close>

definition post_token :: "request \<Rightarrow> world \<Rightarrow> (exn + config) \<times> world" where
  "post_token req w =
     (let w1 = w\<lparr>requests := requests w @ [req]\<rparr>
      in case endpoint w (length (requests w)) of
           SSLFailure \<Rightarrow> (Inl SSLError, w1)
         | ConnectionFailure \<Rightarrow> (Inl ConnectionError, w1)
         | TimeoutFailure \<Rightarrow> (Inl Timeout, w1)
         | OtherFailure \<Rightarrow> (Inl RequestException, w1)
         | Response status body \<Rightarrow>
             if 400 \<le> status \<and> status < 600 then (Inl (HTTPError status body), w1)
             else (case body of
                     None \<Rightarrow> (Inl RequestException, w1)
                   | Some js \<Rightarrow> (Inr js, w1)))"

text \<open>The credential line built from the response body at time \<open>t\<close>.\<close>

definition token_data_of :: "int \<Rightarrow> config \<Rightarrow> exn + string" where
  "token_data_of t js =
     (case map_of js ''expires_in'' of
        None \<Rightarrow> Inl (KeyError (quoted ''expires_in''))
      | Some expires_in \<Rightarrow>
          (case as_number expires_in of
             None \<Rightarrow> Inl TypeError
           | Some n \<Rightarrow>
               (case map_of js ''access_token'' of
                  None \<Rightarrow> Inl (KeyError (quoted ''access_token''))
                | Some access_token \<Rightarrow> Inr (token_line t (t + n) (py_str access_token)))))"

definition generate_token :: "config \<Rightarrow> world \<Rightarrow> (exn + unit) \<times> world" where
  "generate_token config_mcp w =
     (case map_of config_mcp ''voipnowHost'' of
        None \<Rightarrow> (Inl (KeyError (quoted ''voipnowHost'')), w)
      | Some (JStr voipnow_host) \<Rightarrow>
          (case map_of config_mcp ''appId'' of
             None \<Rightarrow> (Inl (KeyError (quoted ''appId'')), w)
           | Some app_id \<Rightarrow>
               (case map_of config_mcp ''appSecret'' of
                  None \<Rightarrow> (Inl (KeyError (quoted ''appSecret'')), w)
                | Some app_secret \<Rightarrow>
                    (case post_token
                            \<lparr> url = token_url voipnow_host,
                              client_id = app_id,
                              client_secret = app_secret,
                              redirect_uri = token_url voipnow_host,
                              verify = (\<not> truthy (get_or config_mcp ''insecure'' (JBool False))) \<rparr>
                            w of
                       (Inl e, w1) \<Rightarrow> (Inl e, w1)
                     | (Inr js, w1) \<Rightarrow>
                         (case token_data_of (now w1) js of
                            Inl e \<Rightarrow> (Inl e, w1)
                          | Inr token_data \<Rightarrow>
                              (case map_of config_mcp ''voipnowTokenFile'' of
                                 None \<Rightarrow> (Inl (KeyError (quoted ''voipnowTokenFile'')), w1)
                               | Some (JStr token_file_path) \<Rightarrow>
                                   (Inr (), write_token_file token_file_path token_data w1)
                               | Some _ \<Rightarrow> (Inl TypeError, w1))))))
      | Some _ \<Rightarrow> (Inl AttributeError, w))"

text \<open>
  The one answer of the endpoint after which \<^verbatim>\<open>generate_token\<close> fails with a KeyError
  naming \<^verbatim>\<open>access_token\<close>: a response that is no HTTP error, whose body has a usable
  \<^verbatim>\<open>expires_in\<close> and no \<^verbatim>\<open>access_token\<close>.
\<close>

definition tokenless_grant :: "reply \<Rightarrow> bool" where
  "tokenless_grant r =
     (case r of
        Response status (Some js) \<Rightarrow>
          \<not> (400 \<le> status \<and> status < 600)
          \<and> (case map_of js ''expires_in'' of
                None \<Rightarrow> False
              | Some v \<Rightarrow> as_number v \<noteq> None)
          \<and> map_of js ''access_token'' = None
      | _ \<Rightarrow> False)"

text \<open>
  The credential line that an answer of the endpoint puts into the token file when it
  arrives at time \<open>t\<close>; \<open>None\<close> for an answer after which \<^verbatim>\<open>generate_token\<close> writes nothing.
\<close>

definition granted_line :: "int \<Rightarrow> reply \<Rightarrow> string option" where
  "granted_line t r =
     (case r of
        Response status (Some js) \<Rightarrow>
          if 400 \<le> status \<and> status < 600 then None
          else (case token_data_of t js of Inl e \<Rightarrow> None | Inr token_data \<Rightarrow> Some token_data)
      | _ \<Rightarrow> None)"

text \<open>The horizon of \<^verbatim>\<open>check_token\<close>: five minutes, written into the comparison.\<close>

definition EXPIRY_HORIZON_SECONDS :: int where
  "EXPIRY_HORIZON_SECONDS = 300"

definition check_token :: "world \<Rightarrow> string \<Rightarrow> exn + bool" where
  "check_token w token_file_path =
     (case safe_read_token_file w token_file_path of
        Inl e \<Rightarrow> Inl (ValueError ''Failed to read or parse token file'')
      | Inr token_data \<Rightarrow>
          (case split_on CHR '':'' token_data of
             _ # expiration_timestamp # _ \<Rightarrow>
               (case py_int expiration_timestamp of
                  None \<Rightarrow> Inl (ValueError ''Failed to read or parse token file'')
                | Some e \<Rightarrow> Inr (now w \<ge> e - EXPIRY_HORIZON_SECONDS))
           | _ \<Rightarrow> Inl (ValueError ''Failed to read or parse token file'')))"

definition get_expiration_timestamp :: "world \<Rightarrow> string \<Rightarrow> exn + int" where
  "get_expiration_timestamp w token_file_path =
     (case safe_read_token_file w token_file_path of
        Inl e \<Rightarrow> Inl (ValueError ''Failed to read or parse token file'')
      | Inr token_data \<Rightarrow>
          (case split_on CHR '':'' token_data of
             _ # expiration_timestamp # _ \<Rightarrow>
               (case py_int expiration_timestamp of
                  None \<Rightarrow> Inl (ValueError ''Failed to read or parse token file'')
                | Some e \<Rightarrow> Inr e)
           | _ \<Rightarrow> Inl (ValueError ''Failed to read or parse token file'')))"

text \<open>
  \<^verbatim>\<open>check_config_change\<close>. The digest \<^verbatim>\<open>sha256(str(auth_config))\<close> of the three
  authentication fields is the parameter \<open>fingerprint\<close>. The stored digest is compared
  after \<^verbatim>\<open>strip()\<close>; on a difference the hash file is rewritten and the token file, when
  the configuration names one that exists, is removed. A missing hash file is created and
  counts as no change.
\<close>

definition check_config_change ::
  "(json \<Rightarrow> json \<Rightarrow> json \<Rightarrow> string) \<Rightarrow> config \<Rightarrow> string \<Rightarrow> world \<Rightarrow> bool \<times> world" where
  "check_config_change fingerprint config_mcp config_hash_file w =
     (let current_hash = fingerprint (get_or config_mcp ''appId'' (JStr []))
                                     (get_or config_mcp ''appSecret'' (JStr []))
                                     (get_or config_mcp ''voipnowHost'' (JStr []))
      in case read_text w config_hash_file of
           None \<Rightarrow> (False, w\<lparr>files := (files w)(config_hash_file \<mapsto> current_hash)\<rparr>)
         | Some content \<Rightarrow>
             if strip content \<noteq> current_hash then
               (let fs1 = write_atomic config_hash_file current_hash (files w);
                    fs2 = (case map_of config_mcp ''voipnowTokenFile'' of
                             Some (JStr token_file) \<Rightarrow>
                               if token_file \<noteq> [] \<and> fs1 token_file \<noteq> None
                               then fs1(token_file := None) else fs1
                           | _ \<Rightarrow> fs1)
                in (True, w\<lparr>files := fs2\<rparr>))
             else (False, w))"

subsection \<open>\<^verbatim>\<open>TokenExpirationChecker\<close>\<close>

text \<open>
  The checker object: its configuration, its interval, the \<^verbatim>\<open>_running\<close> flag and the
  \<^verbatim>\<open>_timer\<close> attribute (the delay of the \<^verbatim>\<open>threading.Timer\<close> it holds, if any).
  \<open>timers_started\<close> counts the \<^verbatim>\<open>Timer.start()\<close> calls the object has made.
\<close>

record checker =
  chk_config :: config
  interval :: real
  running :: bool
  timer :: "real option"
  timers_started :: nat

definition new_checker :: "config \<Rightarrow> real \<Rightarrow> checker" where
  "new_checker config_mcp iv =
     \<lparr> chk_config = config_mcp, interval = iv, running = False, timer = None,
       timers_started = 0 \<rparr>"

definition schedule_next_check :: "real \<Rightarrow> checker \<Rightarrow> checker" where
  "schedule_next_check delay c =
     (if \<not> running c then c
      else c\<lparr>timer := Some delay, timers_started := Suc (timers_started c)\<rparr>)"

definition start :: "real \<Rightarrow> checker \<Rightarrow> checker" where
  "start initial_delay c =
     (if running c then c
      else schedule_next_check initial_delay (c\<lparr>running := True\<rparr>))"

definition stop :: "checker \<Rightarrow> checker" where
  "stop c = c\<lparr>running := False, timer := None\<rparr>"

text \<open>
  The test of the \<^verbatim>\<open>HTTPError\<close> handlers: status 401 and a JSON body whose \<^verbatim>\<open>error\<close> is
  \<^verbatim>\<open>invalid_client\<close>.
\<close>

definition is_invalid_client :: "nat \<Rightarrow> config option \<Rightarrow> bool" where
  "is_invalid_client status body =
     (status = 401 \<and>
      (case body of
         None \<Rightarrow> False
       | Some error_data \<Rightarrow> map_of error_data ''error'' = Some (JStr ''invalid_client'')))"

definition retry_delay :: "checker \<Rightarrow> real" where
  "retry_delay c = min 60 (interval c / 5)"

text \<open>
  The second half of \<^verbatim>\<open>_check_token\<close>: the next delay from the expiry in the file, then
  the callback (whose exceptions are swallowed), then the next timer.
\<close>

definition schedule_from_expiry :: "checker \<Rightarrow> world \<Rightarrow> string \<Rightarrow> checker" where
  "schedule_from_expiry c w voipnow_token_file =
     (case get_expiration_timestamp w voipnow_token_file of
        Inl e \<Rightarrow> schedule_next_check (interval c) c
      | Inr expiration_timestamp \<Rightarrow>
          (let time_until_expiration = real_of_int (expiration_timestamp - now w);
               next_check = (if time_until_expiration > 0
                             then min time_until_expiration (interval c)
                             else interval c)
           in schedule_next_check next_check c))"

text \<open>
  \<^verbatim>\<open>_check_token\<close>, the body of the timer. The first component is the exception that
  leaves the method, if one does. A path that is not a string reads as an unreadable file.
\<close>

definition check_token_step :: "checker \<Rightarrow> world \<Rightarrow> exn option \<times> checker \<times> world" where
  "check_token_step c w =
     (if \<not> running c then (None, c, w)
      else case map_of (chk_config c) ''voipnowTokenFile'' of
             None \<Rightarrow> (None, c, w)
           | Some v \<Rightarrow>
               if \<not> truthy v then (None, c, w)
               else (case v of
                  JStr voipnow_token_file \<Rightarrow>
                    (case check_token w voipnow_token_file of
                       Inl e \<Rightarrow> (None, schedule_next_check (interval c) c, w)
                     | Inr False \<Rightarrow> (None, schedule_from_expiry c w voipnow_token_file, w)
                     | Inr True \<Rightarrow>
                         (case generate_token (chk_config c) w of
                            (Inr u, w1) \<Rightarrow>
                              (None, schedule_from_expiry c w1 voipnow_token_file, w1)
                          | (Inl (HTTPError status body), w1) \<Rightarrow>
                              if is_invalid_client status body then (None, stop c, w1)
                              else (None, schedule_next_check (retry_delay c) c, w1)
                          | (Inl SSLError, w1) \<Rightarrow>
                              (None, schedule_next_check (retry_delay c) c, w1)
                          | (Inl ConnectionError, w1) \<Rightarrow>
                              (None, schedule_next_check (retry_delay c) c, w1)
                          | (Inl Timeout, w1) \<Rightarrow>
                              (None, schedule_next_check (retry_delay c) c, w1)
                          | (Inl RequestException, w1) \<Rightarrow>
                              (None, schedule_next_check (retry_delay c) c, w1)
                          | (Inl OSError, w1) \<Rightarrow>
                              (None, schedule_next_check (retry_delay c) c, w1)
                          | (Inl (ValueError msg), w1) \<Rightarrow>
                              (None, schedule_next_check (interval c) c, w1)
                          | (Inl e, w1) \<Rightarrow> (Some e, c, w1)))
                | _ \<Rightarrow> (None, schedule_next_check (interval c) c, w)))"

text \<open>
  What can happen to a checker from outside: its timer fires (or \<^verbatim>\<open>_check_token\<close> is
  entered in any other way) in some world, \<^verbatim>\<open>_schedule_next_check\<close> is called, or it is
  stopped or started.
\<close>

datatype checker_event =
    CheckToken world
  | ScheduleNext real
  | Stop
  | Start real

fun checker_step :: "checker \<Rightarrow> checker_event \<Rightarrow> checker" where
  "checker_step c (CheckToken w) = fst (snd (check_token_step c w))"
| "checker_step c (ScheduleNext d) = schedule_next_check d c"
| "checker_step c Stop = stop c"
| "checker_step c (Start d) = start d c"

fun is_start :: "checker_event \<Rightarrow> bool" where
  "is_start (Start d) = True"
| "is_start _ = False"

section \<open>\<^verbatim>\<open>main.py\<close>: the configuration manager\<close>

definition required_keys :: "string list" where
  "required_keys = [''appId'', ''appSecret'', ''voipnowHost'', ''voipnowTokenFile'']"

definition allowed_keys :: "string list" where
  "allowed_keys = required_keys @ [''authTokenMCP'', ''logLevel'', ''insecure'']"

definition TOKEN_CHECK_INTERVAL_SECONDS :: real where
  "TOKEN_CHECK_INTERVAL_SECONDS = 300"

definition INITIAL_TOKEN_CHECK_DELAY_SECONDS :: real where
  "INITIAL_TOKEN_CHECK_DELAY_SECONDS = 10"

text \<open>The derived configuration handed to the tools.\<close>

record runtime =
  voipnowUrl :: json
  voipnowToken :: "string option"
  insecure :: json

text \<open>
  The attributes of \<^verbatim>\<open>ConfigManager\<close>. \<^verbatim>\<open>config_data\<close> starts as the empty dict, and
  \<^verbatim>\<open>not self.config_data\<close> is what the code takes for "this is the first load".
  \<^verbatim>\<open>voipnow_config\<close> starts as the empty dict too, here \<open>None\<close>.
\<close>

record manager =
  config_data :: config
  voipnow_token :: "string option"
  voipnow_config :: "runtime option"
  token_checker :: "checker option"
  log_level :: string

definition init_manager :: manager where
  "init_manager =
     \<lparr> config_data = [], voipnow_token = None, voipnow_config = None,
       token_checker = None, log_level = ''INFO'' \<rparr>"

text \<open>The manager together with its \<^verbatim>\<open>threading.Lock\<close>, which is not reentrant.\<close>

record app =
  mgr :: manager
  lock_held :: bool

subsection \<open>The logger's level\<close>

definition upper_char :: "char \<Rightarrow> char" where
  "upper_char c =
     (let n = (of_char c :: nat)
      in if 97 \<le> n \<and> n \<le> 122 then char_of (n - 32) else c)"

definition level_names :: "string list" where
  "level_names =
     [''CRITICAL'', ''FATAL'', ''ERROR'', ''WARN'', ''WARNING'', ''INFO'', ''DEBUG'', ''NOTSET'']"

text \<open>
  \<^verbatim>\<open>set_log_level\<close>: \<^verbatim>\<open>log_level.upper()\<close> is an AttributeError on anything but a string;
  an unknown name falls back to INFO.
\<close>

definition set_log_level :: "json \<Rightarrow> exn + string" where
  "set_log_level v =
     (case v of
        JStr s \<Rightarrow>
          (let name = map upper_char s
           in if name \<in> set level_names then Inr name else Inr ''INFO'')
      | _ \<Rightarrow> Inl AttributeError)"

subsection \<open>Validation: the checks at the head of \<^verbatim>\<open>load_config\<close>\<close>

datatype verdict = Accept | Skip

definition missing_keys :: "config \<Rightarrow> string list" where
  "missing_keys new_config_mcp = filter (\<lambda>key. \<not> has_key new_config_mcp key) required_keys"

definition extra_keys :: "config \<Rightarrow> string list" where
  "extra_keys new_config_mcp =
     filter (\<lambda>key. key \<notin> set allowed_keys) (map fst new_config_mcp)"

definition valid_scheme :: "string \<Rightarrow> bool" where
  "valid_scheme host = (startswith host ''https://'' \<or> startswith host ''http://'')"

text \<open>
  The checks in the order of the source, on the freshly parsed document: missing keys,
  extra keys, the log level (set on the way), the URL, \<^verbatim>\<open>authTokenMCP\<close> in secure mode,
  the token file key. \<open>Skip\<close> is the early \<^verbatim>\<open>return\<close> of a reload.
\<close>

definition validate_config :: "bool \<Rightarrow> manager \<Rightarrow> config \<Rightarrow> (exn + verdict) \<times> manager" where
  "validate_config secure m new_config_mcp =
     (let first_load = (config_data m = [])
      in if first_load \<and> missing_keys new_config_mcp \<noteq> [] then
           (Inl (ConfigurationError
                  (''Missing keys in config file during initial load: ''
                    @ str_join '', '' (missing_keys new_config_mcp))), m)
         else if missing_keys new_config_mcp \<noteq> [] then (Inr Skip, m)
         else if first_load \<and> extra_keys new_config_mcp \<noteq> [] then
           (Inl (ConfigurationError
                  (''Extra keys in config file during initial load: ''
                    @ str_join '', '' (extra_keys new_config_mcp))), m)
         else if extra_keys new_config_mcp \<noteq> [] then (Inr Skip, m)
         else
           (case set_log_level (get_or new_config_mcp ''logLevel'' (JStr ''INFO'')) of
              Inl e \<Rightarrow> (Inl e, m)
            | Inr lvl \<Rightarrow>
                (let m1 = m\<lparr>log_level := lvl\<rparr>
                 in case get_or new_config_mcp ''voipnowHost'' (JStr []) of
                      JStr host \<Rightarrow>
                        if \<not> valid_scheme host then
                          (Inl (ConfigurationError ''Invalid URL format.''), m1)
                        else if secure \<and> \<not> has_key new_config_mcp ''authTokenMCP'' then
                          (if first_load
                           then (Inl (ConfigurationError
                                  ''authTokenMCP is missing in config file.''), m1)
                           else (Inr Skip, m1))
                        else if \<not> has_key new_config_mcp ''voipnowTokenFile'' then
                          (if first_load
                           then (Inl (ConfigurationError
                                  ''voipnowTokenFile is missing in config file.''), m1)
                           else (Inr Skip, m1))
                        else (Inr Accept, m1)
                    | _ \<Rightarrow> (Inl AttributeError, m1))))"

text \<open>
  The three conditions under which the specification says a first load is accepted:
  every required key is there, no key is outside the allowed ones, and \<^verbatim>\<open>voipnowHost\<close>
  starts with \<^verbatim>\<open>http://\<close> or \<^verbatim>\<open>https://\<close>.
\<close>

definition spec_valid :: "config \<Rightarrow> bool" where
  "spec_valid raw =
     ((\<forall>k \<in> set required_keys. has_key raw k)
      \<and> (\<forall>k \<in> set (map fst raw). k \<in> set allowed_keys)
      \<and> (case map_of raw ''voipnowHost'' of
           Some (JStr host) \<Rightarrow> startswith host ''http://'' \<or> startswith host ''https://''
         | _ \<Rightarrow> False))"

text \<open>
  A document whose values have the types the configuration file is specified with:
  \<^verbatim>\<open>logLevel\<close>, \<^verbatim>\<open>voipnowHost\<close> and \<^verbatim>\<open>voipnowTokenFile\<close>, where present, are strings.
\<close>

definition string_or_absent :: "config \<Rightarrow> string \<Rightarrow> bool" where
  "string_or_absent raw k =
     (case map_of raw k of None \<Rightarrow> True | Some (JStr s) \<Rightarrow> True | Some _ \<Rightarrow> False)"

definition typed_document :: "config \<Rightarrow> bool" where
  "typed_document raw =
     (string_or_absent raw ''logLevel'' \<and> string_or_absent raw ''voipnowHost''
      \<and> string_or_absent raw ''voipnowTokenFile'')"

subsection \<open>The token file during a load\<close>

text \<open>
  \<^verbatim>\<open>new_config_mcp["insecure"] = v is True or v == "true"\<close>, when the key is there.
\<close>

definition normalize_insecure :: "config \<Rightarrow> config" where
  "normalize_insecure new_config_mcp =
     (case map_of new_config_mcp ''insecure'' of
        None \<Rightarrow> new_config_mcp
      | Some v \<Rightarrow>
          AList.update ''insecure'' (JBool (v = JBool True \<or> v = JStr ''true'')) new_config_mcp)"

text \<open>
  Whether the token has to be generated: the file is missing, or \<^verbatim>\<open>check_token\<close> says it
  expires, or \<^verbatim>\<open>check_token\<close> raises its ValueError.
\<close>

definition needs_regeneration :: "world \<Rightarrow> string \<Rightarrow> bool" where
  "needs_regeneration w token_path =
     (if files w token_path = None then True
      else (case check_token w token_path of
              Inl e \<Rightarrow> True
            | Inr expiring \<Rightarrow> expiring))"

text \<open>Line 202: the token handed to the tools is \<^verbatim>\<open>token_data.split(":")[-1]\<close>.\<close>

definition token_of_data :: "string \<Rightarrow> string" where
  "token_of_data token_data = last (split_on CHR '':'' token_data)"

text \<open>
  Lines 165 to 211: the fingerprint check, the regeneration, and the read that sets
  \<^verbatim>\<open>self.voipnow_token\<close>.
\<close>

definition refresh_token ::
  "(json \<Rightarrow> json \<Rightarrow> json \<Rightarrow> string) \<Rightarrow> manager \<Rightarrow> world \<Rightarrow> (exn + unit) \<times> manager \<times> world" where
  "refresh_token fingerprint m w =
     (let token_file_path = get_or (config_data m) ''voipnowTokenFile'' JNull
      in if \<not> truthy token_file_path then
           (Inl (ConfigurationError ''Token file not specified in config.''), m, w)
         else (case token_file_path of
            JStr token_path \<Rightarrow>
              (let (config_changed, w1) =
                     check_config_change fingerprint (config_data m)
                       (token_path @ ''.config_hash'') w
               in case (if needs_regeneration w1 token_path
                        then generate_token (config_data m) w1
                        else (Inr (), w1)) of
                    (Inl e, w2) \<Rightarrow> (Inl e, m, w2)
                  | (Inr u, w2) \<Rightarrow>
                      (case safe_read_token_file w2 token_path of
                         Inl e \<Rightarrow> (Inl (RuntimeError ''Failed to generate valid token''), m, w2)
                       | Inr token_data \<Rightarrow>
                           (Inr (),
                            m\<lparr>voipnow_token := Some (token_of_data token_data)\<rparr>,
                            w2)))
          | _ \<Rightarrow> (Inl TypeError, m, w)))"

definition start_token_expiration_check :: "manager \<Rightarrow> manager" where
  "start_token_expiration_check m =
     m\<lparr>token_checker :=
         Some (start INITIAL_TOKEN_CHECK_DELAY_SECONDS
                 (new_checker (config_data m) TOKEN_CHECK_INTERVAL_SECONDS))\<rparr>"

text \<open>The body of the \<^verbatim>\<open>try\<close> block of \<^verbatim>\<open>load_config\<close>.\<close>

definition try_body ::
  "bool \<Rightarrow> (json \<Rightarrow> json \<Rightarrow> json \<Rightarrow> string) \<Rightarrow> manager \<Rightarrow> world \<Rightarrow> (exn + unit) \<times> manager \<times> world" where
  "try_body secure fingerprint m w =
     (case config_doc w of
        Unreadable \<Rightarrow> (Inl OSError, m, w)
      | Unparsable msg \<Rightarrow> (Inl (ValueError msg), m, w)
      | Document new_config_mcp \<Rightarrow>
          (case validate_config secure m new_config_mcp of
             (Inl e, m1) \<Rightarrow> (Inl e, m1, w)
           | (Inr Skip, m1) \<Rightarrow> (Inr (), m1, w)
           | (Inr Accept, m1) \<Rightarrow>
               (let m2 = m1\<lparr>config_data := normalize_insecure new_config_mcp\<rparr>
                in case refresh_token fingerprint m2 w of
                     (Inl e, m3, w3) \<Rightarrow> (Inl e, m3, w3)
                   | (Inr u, m3, w3) \<Rightarrow>
                       (Inr (),
                        start_token_expiration_check
                          (m3\<lparr>voipnow_config :=
                                Some \<lparr> voipnowUrl = get_or (config_data m3) ''voipnowHost'' (JStr []),
                                       voipnowToken = voipnow_token m3,
                                       insecure = get_or (config_data m3) ''insecure'' (JBool False) \<rparr>\<rparr>),
                        w3))))"

subsection \<open>\<^verbatim>\<open>load_config\<close>\<close>

text \<open>
  How a call ends: it returns, an exception leaves it, or it never comes back because it
  waits for a lock that will not be released.
\<close>

datatype outcome = Returned | Raised exn | Blocked

text \<open>A load that refuses its document ends in a ConfigurationError.\<close>

fun refused :: "outcome \<Rightarrow> bool" where
  "refused (Raised (ConfigurationError msg)) = True"
| "refused _ = False"

text \<open>\<^verbatim>\<open>str(e)\<close> for the three classes of the token handler.\<close>

fun str_exn :: "exn \<Rightarrow> string" where
  "str_exn (ValueError msg) = msg"
| "str_exn (KeyError msg) = msg"
| "str_exn (RuntimeError msg) = msg"
| "str_exn _ = []"

fun value_key_runtime :: "exn \<Rightarrow> bool" where
  "value_key_runtime (ValueError msg) = True"
| "value_key_runtime (KeyError msg) = True"
| "value_key_runtime (RuntimeError msg) = True"
| "value_key_runtime _ = False"

text \<open>\<^verbatim>\<open>"token" in str(e).lower()\<close>.\<close>

definition mentions_token :: "exn \<Rightarrow> bool" where
  "mentions_token e = contains (lower (str_exn e)) ''token''"

text \<open>
  \<^verbatim>\<open>except (requests.exceptions.RequestException, IOError, ValueError)\<close> around the
  regeneration in the handler.
\<close>

fun regen_caught :: "exn \<Rightarrow> bool" where
  "regen_caught SSLError = True"
| "regen_caught (HTTPError status body) = True"
| "regen_caught ConnectionError = True"
| "regen_caught Timeout = True"
| "regen_caught RequestException = True"
| "regen_caught OSError = True"
| "regen_caught (ValueError msg) = True"
| "regen_caught _ = False"

text \<open>
  The end of most handlers: \<^verbatim>\<open>if not self.config_data: raise ConfigurationError(msg)\<close>,
  and otherwise the method is left normally.
\<close>

definition raise_if_first :: "manager \<Rightarrow> string \<Rightarrow> outcome" where
  "raise_if_first m error_msg =
     (if config_data m = [] then Raised (ConfigurationError error_msg) else Returned)"

text \<open>The handlers that do not retry, in the order of the \<^verbatim>\<open>except\<close> clauses.\<close>

fun handle_exn :: "exn \<Rightarrow> manager \<Rightarrow> outcome" where
  "handle_exn SSLError m = raise_if_first m ''SSL certificate verification failed''"
| "handle_exn (HTTPError status body) m =
     (if is_invalid_client status body \<and> config_data m = []
      then Raised (ConfigurationError ''Invalid client credentials (appId/appSecret)'')
      else raise_if_first m ''HTTP error: unknown'')"
| "handle_exn ConnectionError m =
     raise_if_first m ''Connection error: Cannot connect to VoipNow server''"
| "handle_exn Timeout m = raise_if_first m ''Token generation timed out''"
| "handle_exn RequestException m = raise_if_first m ''Token generation request failed''"
| "handle_exn (ValueError msg) m = raise_if_first m ''Failed to load initial configuration''"
| "handle_exn (KeyError msg) m = raise_if_first m ''Failed to load initial configuration''"
| "handle_exn (RuntimeError msg) m = raise_if_first m ''Failed to load initial configuration''"
| "handle_exn (ConfigurationError msg) m = Raised (ConfigurationError msg)"
| "handle_exn OSError m = raise_if_first m ''Failed to load configuration file''"
| "handle_exn AttributeError m = Raised AttributeError"
| "handle_exn TypeError m = Raised TypeError"

text \<open>
  The body of \<^verbatim>\<open>load_config\<close>, with the call \<^verbatim>\<open>self.load_config()\<close> of its token handler
  as the parameter \<open>reload\<close>. The whole method runs inside \<^verbatim>\<open>with self.lock\<close>: entered
  while the lock is held, it waits; left by \<^verbatim>\<open>return\<close> or by an exception, it releases the
  lock. The handler for ValueError, KeyError and RuntimeError, when the message mentions a
  token and a configuration is there, generates a token and calls \<^verbatim>\<open>self.load_config()\<close>
  again, still inside the \<^verbatim>\<open>with\<close> block; an exception of the regeneration that the inner
  \<^verbatim>\<open>except\<close> does not name leaves the method.
\<close>

definition load_config_with ::
  "(app \<Rightarrow> world \<Rightarrow> outcome \<times> app \<times> world) \<Rightarrow>
   bool \<Rightarrow> (json \<Rightarrow> json \<Rightarrow> json \<Rightarrow> string) \<Rightarrow> app \<Rightarrow> world \<Rightarrow> outcome \<times> app \<times> world" where
  "load_config_with reload secure fingerprint a w =
     (if lock_held a then (Blocked, a, w)
      else (case try_body secure fingerprint (mgr a) w of
         (Inr u, m1, w1) \<Rightarrow> (Returned, \<lparr>mgr = m1, lock_held = False\<rparr>, w1)
       | (Inl e, m1, w1) \<Rightarrow>
           if value_key_runtime e \<and> mentions_token e \<and> config_data m1 \<noteq> [] then
             (case generate_token (config_data m1) w1 of
                (Inr u, w2) \<Rightarrow>
                  (case reload \<lparr>mgr = m1, lock_held = True\<rparr> w2 of
                     (Blocked, a3, w3) \<Rightarrow> (Blocked, a3, w3)
                   | (Returned, a3, w3) \<Rightarrow> (Returned, a3\<lparr>lock_held := False\<rparr>, w3)
                   | (Raised e3, a3, w3) \<Rightarrow> (Raised e3, a3\<lparr>lock_held := False\<rparr>, w3))
              | (Inl regen_error, w2) \<Rightarrow>
                  if regen_caught regen_error
                  then (handle_exn e m1, \<lparr>mgr = m1, lock_held = False\<rparr>, w2)
                  else (Raised regen_error, \<lparr>mgr = m1, lock_held = False\<rparr>, w2))
           else (handle_exn e m1, \<lparr>mgr = m1, lock_held = False\<rparr>, w1)))"

text \<open>
  The body calls \<open>reload\<close> only from a call that found the lock free, and only on an
  application whose lock is held.
\<close>

lemma load_config_with_cong [fundef_cong]:
  assumes "a = a'" and "w = w'" and "secure = secure'" and "fingerprint = fingerprint'"
    and "\<And>b v. \<not> lock_held a' \<Longrightarrow> lock_held b \<Longrightarrow> reload b v = reload' b v"
  shows "load_config_with reload secure fingerprint a w
           = load_config_with reload' secure' fingerprint' a' w'"
  using assms
  by (auto simp: load_config_with_def split: prod.splits sum.splits)

text \<open>\<^verbatim>\<open>load_config\<close>: the body, calling itself.\<close>

function load_config ::
  "bool \<Rightarrow> (json \<Rightarrow> json \<Rightarrow> json \<Rightarrow> string) \<Rightarrow> app \<Rightarrow> world \<Rightarrow> outcome \<times> app \<times> world" where
  "load_config secure fingerprint a w =
     load_config_with (\<lambda>b v. load_config secure fingerprint b v) secure fingerprint a w"
  by pat_completeness auto
termination
  by (relation "measure (\<lambda>(secure, fingerprint, a, w). if lock_held a then 0 else 1)") auto

declare load_config.simps [simp del]

text \<open>The process start: \<^verbatim>\<open>ConfigManager.__init__\<close> with the lock free, then the first load.\<close>

definition init_app :: app where
  "init_app = \<lparr> mgr = init_manager, lock_held = False \<rparr>"

subsection \<open>\<^verbatim>\<open>ConfigFileHandler\<close>\<close>

text \<open>
  The handler's \<^verbatim>\<open>last_reload_time\<close> dict. An event is the modified path, the
  \<^verbatim>\<open>time.time()\<close> reading when it is handled, and what the outside did to the world since
  the event before.
\<close>

record watcher =
  last_reload_time :: "string \<Rightarrow> real option"

definition init_watcher :: watcher where
  "init_watcher = \<lparr> last_reload_time = Map.empty \<rparr>"

record fs_event =
  src_path :: string
  at_time :: real
  outside :: "world \<Rightarrow> world"

text \<open>
  \<^verbatim>\<open>on_modified\<close>. \<^verbatim>\<open>get_config()\<close> takes the manager's lock first, so on a held lock the
  handler waits. A token path that is not a string makes \<^verbatim>\<open>os.path.abspath\<close> raise.
  The clock readings are floating-point numbers, and \<^verbatim>\<open>current_time - last\<close> is their
  difference as the machine rounds it: that subtraction is the parameter \<open>time_diff\<close>.
\<close>

definition on_modified ::
  "bool \<Rightarrow> (json \<Rightarrow> json \<Rightarrow> json \<Rightarrow> string) \<Rightarrow> string \<Rightarrow> (real \<Rightarrow> real \<Rightarrow> real) \<Rightarrow>
   fs_event \<Rightarrow> watcher \<times> app \<times> world \<Rightarrow> outcome \<times> watcher \<times> app \<times> world" where
  "on_modified secure fingerprint config_file time_diff ev s =
     (case s of (h, a, w0) \<Rightarrow>
        (let w = outside ev w0;
             modified_path = src_path ev
         in if lock_held a then (Blocked, h, a, w)
            else
              (let token_file_path = get_or (config_data (mgr a)) ''voipnowTokenFile'' JNull
               in if truthy token_file_path \<and> (case token_file_path of JStr p \<Rightarrow> False | _ \<Rightarrow> True)
                  then (Raised TypeError, h, a, w)
                  else if modified_path = config_file
                          \<or> (truthy token_file_path \<and> JStr modified_path = token_file_path)
                  then
                    (let current_time = at_time ev
                     in if (case last_reload_time h modified_path of
                              None \<Rightarrow> False
                            | Some t \<Rightarrow> time_diff current_time t < 1)
                        then (Returned, h, a, w)
                        else
                          (let h1 = h\<lparr>last_reload_time :=
                                        (last_reload_time h)(modified_path \<mapsto> current_time)\<rparr>
                           in case load_config secure fingerprint a w of
                                (res, a1, w1) \<Rightarrow> (res, h1, a1, w1)))
                  else (Returned, h, a, w))))"

text \<open>
  The observer hands the events of a burst to the handler one after the other. What the
  observer does when the handler raises or waits is not in the source; here the later
  events are still handed over.
\<close>

fun dispatch_events ::
  "bool \<Rightarrow> (json \<Rightarrow> json \<Rightarrow> json \<Rightarrow> string) \<Rightarrow> string \<Rightarrow> (real \<Rightarrow> real \<Rightarrow> real) \<Rightarrow>
   fs_event list \<Rightarrow> watcher \<times> app \<times> world \<Rightarrow> watcher \<times> app \<times> world" where
  "dispatch_events secure fingerprint config_file time_diff [] s = s"
| "dispatch_events secure fingerprint config_file time_diff (ev # evs) s =
     dispatch_events secure fingerprint config_file time_diff evs
       (snd (on_modified secure fingerprint config_file time_diff ev s))"

text \<open>
  When \<^const>\<open>on_modified\<close> takes an event as far as the reload: the lock is free, the
  configured token path (if any) is a string, the path is the configuration file or the
  token file, and the clock test finds no reload for that path less than a second before.
\<close>

definition accepted ::
  "string \<Rightarrow> (real \<Rightarrow> real \<Rightarrow> real) \<Rightarrow> watcher \<Rightarrow> app \<Rightarrow> fs_event \<Rightarrow> bool" where
  "accepted config_file time_diff h a ev =
     (let token_file_path = get_or (config_data (mgr a)) ''voipnowTokenFile'' JNull
      in \<not> lock_held a
         \<and> (truthy token_file_path \<longrightarrow> (\<exists>p. token_file_path = JStr p))
         \<and> (src_path ev = config_file
              \<or> (truthy token_file_path \<and> JStr (src_path ev) = token_file_path))
         \<and> (case last_reload_time h (src_path ev) of
               None \<Rightarrow> True
             | Some t \<Rightarrow> \<not> time_diff (at_time ev) t < 1))"

section \<open>Concrete configurations and worlds\<close>

text \<open>
  The values at which the theorems below are evaluated. The digest stands in for
  \<^verbatim>\<open>sha256\<close>: it joins the three values it is given.
\<close>

definition demo_fingerprint :: "json \<Rightarrow> json \<Rightarrow> json \<Rightarrow> string" where
  "demo_fingerprint a b c = py_str a @ ''|'' @ py_str b @ ''|'' @ py_str c"

definition demo_config :: config where
  "demo_config =
     [(''appId'', JStr ''A1''), (''appSecret'', JStr ''S1''),
      (''voipnowHost'', JStr ''https://pbx.example.com''),
      (''voipnowTokenFile'', JStr ''/tmp/tok'')]"

text \<open>The same configuration with a plain \<^verbatim>\<open>http://\<close> host.\<close>

definition http_config :: config where
  "http_config =
     [(''appId'', JStr ''A1''), (''appSecret'', JStr ''S1''),
      (''voipnowHost'', JStr ''http://pbx.example.com''),
      (''voipnowTokenFile'', JStr ''/tmp/tok'')]"

text \<open>A host with a scheme the URL check refuses, and an empty token path.\<close>

definition ftp_config :: config where
  "ftp_config =
     [(''appId'', JStr ''A1''), (''appSecret'', JStr ''S1''),
      (''voipnowHost'', JStr ''ftp://pbx.example.com''),
      (''voipnowTokenFile'', JStr ''/tmp/tok'')]"

definition blank_path_config :: config where
  "blank_path_config =
     [(''appId'', JStr ''A1''), (''appSecret'', JStr ''S1''),
      (''voipnowHost'', JStr ''https://pbx.example.com''),
      (''voipnowTokenFile'', JStr [])]"

definition demo_grant :: reply where
  "demo_grant =
     Response 200 (Some [(''expires_in'', JNum 3600), (''access_token'', JStr ''abc'')])"

text \<open>No files yet, the clock at 1000, an endpoint that grants every request.\<close>

definition demo_world :: world where
  "demo_world =
     \<lparr> files = Map.empty, now = 1000, endpoint = (\<lambda>n. demo_grant), requests = [],
       config_doc = Document demo_config \<rparr>"

text \<open>The application after its first load in that world, and the world it leaves.\<close>

definition loaded_app :: app where
  "loaded_app = fst (snd (load_config False demo_fingerprint init_app demo_world))"

definition loaded_world :: world where
  "loaded_world = snd (snd (load_config False demo_fingerprint init_app demo_world))"

text \<open>A token file that expires at 1000, read when the clock shows 700 and when it shows 900.\<close>

definition boundary_world :: world where
  "boundary_world =
     demo_world\<lparr>files := [''/tmp/tok'' \<mapsto> token_line 0 1000 ''tok''], now := 700\<rparr>"

definition inside_world :: world where
  "inside_world =
     demo_world\<lparr>files := [''/tmp/tok'' \<mapsto> token_line 0 1000 ''tok''], now := 900\<rparr>"

text \<open>
  A world in which the token of \<^const>\<open>demo_config\<close> is about to expire and the endpoint
  answers 401 with \<^verbatim>\<open>invalid_client\<close>; a running checker on that configuration.
\<close>

definition rejecting_world :: world where
  "rejecting_world =
     \<lparr> files = [''/tmp/tok'' \<mapsto> token_line 0 1000 ''tok''], now = 900,
       endpoint = (\<lambda>n. Response 401 (Some [(''error'', JStr ''invalid_client'')])),
       requests = [], config_doc = Document demo_config \<rparr>"

text \<open>The same world with an endpoint that sends the same body under status 400.\<close>

definition bad_request_world :: world where
  "bad_request_world =
     rejecting_world
       \<lparr>endpoint := (\<lambda>n. Response 400 (Some [(''error'', JStr ''invalid_client'')]))\<rparr>"

definition demo_checker :: checker where
  "demo_checker = start 10 (new_checker demo_config 300)"

text \<open>A modification of the configuration file at clock reading \<open>t\<close>.\<close>

definition burst_event :: "real \<Rightarrow> fs_event" where
  "burst_event t = \<lparr> src_path = ''/etc/mcp.json'', at_time = t, outside = (\<lambda>w. w) \<rparr>"

text \<open>
  A reload in which the token file is gone and the endpoint first answers 200 with a body
  that has \<^verbatim>\<open>expires_in\<close> but no \<^verbatim>\<open>access_token\<close>, and grants every later request.
\<close>

definition tokenless_reply :: reply where
  "tokenless_reply = Response 200 (Some [(''expires_in'', JNum 3600)])"

definition tokenless_world :: world where
  "tokenless_world =
     \<lparr> files = [''/tmp/tok.config_hash'' \<mapsto> ''A1|S1|https://pbx.example.com''], now = 5000,
       endpoint = (\<lambda>n. if n = 0 then tokenless_reply else demo_grant), requests = [],
       config_doc = Document demo_config \<rparr>"

text \<open>A secret with a carriage return between \<^verbatim>\<open>a\<close> and \<^verbatim>\<open>b\<close>, and what it is read back as.\<close>

definition cr_secret :: string where
  "cr_secret = [CHR ''a'', CHR 0x0D, CHR ''b'']"

definition lf_secret :: string where
  "lf_secret = [CHR ''a'', CHR 0x0A, CHR ''b'']"

text \<open>A first load that finds a fresh token file whose secret is \<^verbatim>\<open>ab:cd\<close>.\<close>

definition colon_world :: world where
  "colon_world =
     demo_world\<lparr>files := [''/tmp/tok'' \<mapsto> token_line 1000 4600 ''ab:cd'']\<rparr>"

text \<open>
  Reloads after the application secret was edited: the stored digest is the old one and
  the token file is still fresh. The endpoint grants; or it answers once without an
  \<^verbatim>\<open>access_token\<close> and then cannot be reached. In the last world nothing was edited.
\<close>

definition rotated_config :: config where
  "rotated_config =
     [(''appId'', JStr ''A1''), (''appSecret'', JStr ''S2''),
      (''voipnowHost'', JStr ''https://pbx.example.com''),
      (''voipnowTokenFile'', JStr ''/tmp/tok'')]"

definition rotated_world :: world where
  "rotated_world =
     \<lparr> files = [''/tmp/tok.config_hash'' \<mapsto> ''A1|S1|https://pbx.example.com'',
                ''/tmp/tok'' \<mapsto> token_line 500 4100 ''old''],
       now = 1000, endpoint = (\<lambda>n. demo_grant), requests = [],
       config_doc = Document rotated_config \<rparr>"

definition flaky_world :: world where
  "flaky_world =
     rotated_world\<lparr>endpoint := (\<lambda>n. if n = 0 then tokenless_reply else ConnectionFailure)\<rparr>"

definition steady_world :: world where
  "steady_world = rotated_world\<lparr>config_doc := Document demo_config\<rparr>"

section \<open>Properties of the string primitives\<close>

subsection \<open>Splitting\<close>

lemma split_on_not_Nil [simp]: "split_on c s \<noteq> []"
  by (induction s) (auto split: list.splits)

lemma split_on_no_sep: "c \<notin> set s \<Longrightarrow> split_on c s = [s]"
  by (induction s) auto

lemma split_on_append: "split_on c (a @ c # b) = split_on c a @ split_on c b"
proof (induction a)
  case Nil
  show ?case by simp
next
  case (Cons x a)
  obtain p ps where ps: "split_on c a = p # ps"
    by (cases "split_on c a") auto
  show ?case using Cons ps by simp
qed

lemma last_split_on_append: "last (split_on c (a @ c # b)) = last (split_on c b)"
  by (simp add: split_on_append)

lemma last_split_on_suffix:
  "c \<notin> set b \<Longrightarrow> last (split_on c (a @ c # b)) = b"
  by (simp add: split_on_append split_on_no_sep)

lemma last_split_on_after_last: "last (split_on c s) = after_last c s"
proof (cases "c \<in> set s")
  case False
  then have tw: "takeWhile (\<lambda>x. x \<noteq> c) (rev s) = rev s"
    by (auto intro: takeWhile_eq_all_conv [THEN iffD2])
  have "after_last c s = s" unfolding after_last_def tw by simp
  with False show ?thesis by (simp add: split_on_no_sep)
next
  case True
  then obtain a b where s: "s = a @ c # b" and b: "c \<notin> set b"
    by (meson split_list_last)
  have tw: "takeWhile (\<lambda>x. x \<noteq> c) (rev b @ c # rev a) = rev b"
    using b by (simp add: takeWhile_append)
  have "after_last c s = b" unfolding after_last_def s using tw by simp
  then show ?thesis using s b by (simp add: last_split_on_suffix)
qed

subsection \<open>Printing and parsing integers\<close>

lemma of_char_digit_char: "d < 10 \<Longrightarrow> (of_char (digit_char d) :: nat) = 48 + d"
  by (simp add: digit_char_def)

lemma is_digit_digit_char: "d < 10 \<Longrightarrow> is_digit (digit_char d)"
  by (simp add: is_digit_def of_char_digit_char)

lemma digit_val_digit_char: "d < 10 \<Longrightarrow> digit_val (digit_char d) = d"
  by (simp add: digit_val_def of_char_digit_char)

lemma digits_of_nat_not_Nil [simp]: "digits_of_nat n \<noteq> []"
  by (subst digits_of_nat.simps) simp

lemma digits_of_nat_digits: "c \<in> set (digits_of_nat n) \<Longrightarrow> is_digit c"
proof (induction n arbitrary: c rule: digits_of_nat.induct)
  case (1 n)
  show ?case
  proof (cases "n < 10")
    case True
    with "1.prems" show ?thesis
      by (subst (asm) digits_of_nat.simps) (simp add: is_digit_digit_char)
  next
    case False
    with "1.prems" have "c \<in> set (digits_of_nat (n div 10)) \<or> c = digit_char (n mod 10)"
      by (subst (asm) digits_of_nat.simps) auto
    then show ?thesis using "1.IH" False by (auto simp: is_digit_digit_char)
  qed
qed

lemma nat_of_digits_snoc: "nat_of_digits (ds @ [c]) = 10 * nat_of_digits ds + digit_val c"
  by (simp add: nat_of_digits_def)

lemma nat_of_digits_digits_of_nat: "nat_of_digits (digits_of_nat n) = n"
proof (induction n rule: digits_of_nat.induct)
  case (1 n)
  show ?case
  proof (cases "n < 10")
    case True
    then show ?thesis
      by (subst digits_of_nat.simps) (simp add: nat_of_digits_def digit_val_digit_char)
  next
    case False
    then show ?thesis using "1.IH"
      by (subst digits_of_nat.simps) (simp add: nat_of_digits_snoc digit_val_digit_char)
  qed
qed

lemma is_digit_not_space: "is_digit c \<Longrightarrow> \<not> isspace c"
  by (auto simp: is_digit_def isspace_def Let_def)

lemma is_digit_not_int_space: "is_digit c \<Longrightarrow> \<not> int_space c"
  by (auto simp: is_digit_def int_space_def Let_def)

lemma is_digit_not_special:
  "is_digit c \<Longrightarrow> c \<noteq> CHR ''_'' \<and> c \<noteq> CHR '':'' \<and> c \<noteq> CHR ''-'' \<and> c \<noteq> CHR ''+''"
  by (auto simp: is_digit_def)

lemma parse_digits_digits_of_nat: "parse_digits (digits_of_nat n) = Some n"
proof -
  have "CHR ''_'' \<notin> set (digits_of_nat n)"
    using digits_of_nat_digits is_digit_not_special by blast
  then have "split_on CHR ''_'' (digits_of_nat n) = [digits_of_nat n]"
    by (rule split_on_no_sep)
  then show ?thesis
    by (simp add: parse_digits_def digits_of_nat_digits nat_of_digits_digits_of_nat)
qed

lemma trim_noop:
  assumes "a \<noteq> []" "\<not> P (hd a)" "\<not> P (last a)"
  shows "rev (dropWhile P (rev (dropWhile P a))) = a"
proof -
  from assms obtain x xs where "a = x # xs" by (cases a) auto
  with assms have front: "dropWhile P a = a" by simp
  from assms obtain y ys where "rev a = y # ys" and "\<not> P y"
    by (cases "rev a") (auto simp: hd_rev)
  then have "dropWhile P (rev a) = rev a" by simp
  then show ?thesis unfolding front by simp
qed

lemma strip_append:
  assumes "a \<noteq> []" "\<not> isspace (hd a)" "\<not> isspace (last a)"
  shows "strip (a @ b) = a @ rstrip b"
proof -
  from assms obtain x xs where a: "a = x # xs" by (cases a) auto
  with assms have front: "dropWhile isspace (a @ b) = a @ b" by simp
  from assms obtain y ys where ra: "rev a = y # ys" and y: "\<not> isspace y"
    by (cases "rev a") (auto simp: hd_rev)
  have "dropWhile isspace (rev b @ rev a) = dropWhile isspace (rev b) @ rev a"
    using ra y by (simp add: dropWhile_append)
  then show ?thesis
    unfolding strip_def rstrip_def front by simp
qed

lemma strip_noop:
  assumes "a \<noteq> []" "\<not> isspace (hd a)" "\<not> isspace (last a)"
  shows "strip a = a"
  using strip_append [OF assms, of "[]"] by (simp add: rstrip_def)

lemma str_int_not_Nil [simp]: "str_int i \<noteq> []"
  by (simp add: str_int_def)

lemma hd_str_int_not_space: "\<not> isspace (hd (str_int i))"
proof (cases "i < 0")
  case True
  then show ?thesis by (simp add: str_int_def isspace_def)
next
  case False
  have "hd (digits_of_nat (nat i)) \<in> set (digits_of_nat (nat i))" by simp
  then have "is_digit (hd (digits_of_nat (nat i)))" by (rule digits_of_nat_digits)
  then show ?thesis using False
    by (simp add: str_int_def is_digit_not_space)
qed

lemma last_str_int_digit: "is_digit (last (str_int i))"
proof -
  have "last (digits_of_nat n) \<in> set (digits_of_nat n)" for n by simp
  then have "is_digit (last (digits_of_nat n))" for n by (rule digits_of_nat_digits)
  then show ?thesis by (simp add: str_int_def)
qed

lemma colon_notin_str_int: "CHR '':'' \<notin> set (str_int i)"
  using digits_of_nat_digits is_digit_not_special by (auto simp: str_int_def)

lemma hd_str_int_not_int_space: "\<not> int_space (hd (str_int i))"
proof (cases "i < 0")
  case True
  then show ?thesis by (simp add: str_int_def int_space_def)
next
  case False
  have "hd (digits_of_nat (nat i)) \<in> set (digits_of_nat (nat i))" by simp
  then have "is_digit (hd (digits_of_nat (nat i)))" by (rule digits_of_nat_digits)
  then show ?thesis using False
    by (simp add: str_int_def is_digit_not_int_space)
qed

lemma py_int_str_int: "py_int (str_int i) = Some i"
proof -
  have s: "rev (dropWhile int_space (rev (dropWhile int_space (str_int i)))) = str_int i"
    by (rule trim_noop)
       (simp_all add: hd_str_int_not_int_space last_str_int_digit is_digit_not_int_space)
  show ?thesis
  proof (cases "i < 0")
    case True
    then show ?thesis
      unfolding py_int_def s by (simp add: str_int_def parse_digits_digits_of_nat)
  next
    case False
    obtain c r where cr: "digits_of_nat (nat i) = c # r"
      by (cases "digits_of_nat (nat i)") auto
    then have "is_digit c" using digits_of_nat_digits [of c "nat i"] by simp
    then have "c \<noteq> CHR ''-''" "c \<noteq> CHR ''+''" using is_digit_not_special by auto
    moreover have "parse_digits (c # r) = Some (nat i)"
      using parse_digits_digits_of_nat [of "nat i"] cr by simp
    ultimately show ?thesis using False
      unfolding py_int_def s by (simp add: str_int_def cr)
  qed
qed

subsection \<open>Text-mode reads\<close>

lemma universal_newlines_id: "CHR 0x0D \<notin> set s \<Longrightarrow> universal_newlines s = s"
  by (induction s) auto

lemma universal_newlines_append:
  "CHR 0x0D \<notin> set a \<Longrightarrow> universal_newlines (a @ s) = a @ universal_newlines s"
  by (induction a) auto

lemma cr_notin_str_int: "CHR 0x0D \<notin> set (str_int i)"
proof -
  have "is_digit c \<Longrightarrow> c \<noteq> CHR 0x0D" for c by (auto simp: is_digit_def)
  then show ?thesis using digits_of_nat_digits by (auto simp: str_int_def)
qed

section \<open>The credential file\<close>

subsection \<open>The credential line, written and read back\<close>

lemma token_line_strip:
  "strip (token_line i e s) = token_line i e (rstrip s)"
proof -
  let ?a = "str_int i @ '':'' @ str_int e @ '':''"
  have "\<not> isspace (hd ?a)" by (simp add: hd_append hd_str_int_not_space)
  moreover have "\<not> isspace (last ?a)" by (simp add: isspace_def)
  moreover have "?a \<noteq> []" by simp
  ultimately have "strip (?a @ s) = ?a @ rstrip s"
    by (intro strip_append)
  then show ?thesis by (simp add: token_line_def)
qed

lemma token_line_split:
  "split_on CHR '':'' (token_line i e s) = str_int i # str_int e # split_on CHR '':'' s"
proof -
  have "split_on CHR '':'' (str_int i @ CHR '':'' # (str_int e @ CHR '':'' # s))
        = split_on CHR '':'' (str_int i) @ split_on CHR '':'' (str_int e) @ split_on CHR '':'' s"
    by (simp only: split_on_append)
  then show ?thesis
    by (simp add: token_line_def split_on_no_sep colon_notin_str_int)
qed

lemma token_line_not_Nil [simp]: "token_line i e s \<noteq> []"
  by (simp add: token_line_def)

lemma token_line_newlines:
  "universal_newlines (token_line i e s) = token_line i e (universal_newlines s)"
proof -
  have "CHR 0x0D \<notin> set (str_int i @ '':'' @ str_int e @ '':'')"
    by (simp add: cr_notin_str_int)
  from universal_newlines_append [OF this, of s] show ?thesis
    by (simp add: token_line_def)
qed

lemma safe_read_token_line:
  "files w p = Some (token_line i e s) \<Longrightarrow>
   safe_read_token_file w p = Inr (token_line i e (rstrip (universal_newlines s)))"
  by (simp add: safe_read_token_file_def read_text_def token_line_newlines token_line_strip
        token_line_split Let_def)

lemma check_token_token_line:
  "files w p = Some (token_line i e s) \<Longrightarrow>
   check_token w p = Inr (now w \<ge> e - EXPIRY_HORIZON_SECONDS)"
  by (simp add: check_token_def safe_read_token_line token_line_split py_int_str_int)

lemma get_expiration_timestamp_token_line:
  "files w p = Some (token_line i e s) \<Longrightarrow> get_expiration_timestamp w p = Inr e"
  by (simp add: get_expiration_timestamp_def safe_read_token_line token_line_split py_int_str_int)

lemma rstrip_noop: "s = [] \<or> \<not> isspace (last s) \<Longrightarrow> rstrip s = s"
  by (cases "rev s") (auto simp: rstrip_def last_rev [symmetric] simp del: last_rev)

lemma files_write_token_file [simp]:
  "files (write_token_file p d w) p = Some d"
  by (simp add: write_token_file_def write_atomic_def)

lemma now_write_token_file [simp]: "now (write_token_file p d w) = now w"
  by (simp add: write_token_file_def)

subsection \<open>The token request\<close>

lemma post_token_requests: "requests (snd (post_token req w)) = requests w @ [req]"
  by (simp add: post_token_def Let_def split: reply.splits option.splits)

lemma requests_write_token_file [simp]: "requests (write_token_file p d w) = requests w"
  by (simp add: write_token_file_def)

lemma generate_token_requests:
  assumes "map_of config_mcp ''voipnowHost'' = Some (JStr host)"
    and "map_of config_mcp ''appId'' = Some app_id"
    and "map_of config_mcp ''appSecret'' = Some app_secret"
  shows "requests (snd (generate_token config_mcp w)) =
           requests w @ [\<lparr> url = token_url host, client_id = app_id,
                            client_secret = app_secret, redirect_uri = token_url host,
                            verify = (\<not> truthy (get_or config_mcp ''insecure'' (JBool False))) \<rparr>]"
proof -
  let ?req = "\<lparr> url = token_url host, client_id = app_id,
                 client_secret = app_secret, redirect_uri = token_url host,
                 verify = (\<not> truthy (get_or config_mcp ''insecure'' (JBool False))) \<rparr>"
  obtain r w1 where p: "post_token ?req w = (r, w1)" by (cases "post_token ?req w")
  then have w1: "requests w1 = requests w @ [?req]"
    using post_token_requests [of ?req w] by simp
  show ?thesis
    using assms p w1 unfolding generate_token_def
    by (simp split: sum.splits option.splits json.splits)
qed

lemma startswith_iff: "startswith s p \<longleftrightarrow> (\<exists>r. s = p @ r)"
proof
  assume "startswith s p"
  then have "s = p @ drop (length p) s"
    by (metis append_take_drop_id startswith_def)
  then show "\<exists>r. s = p @ r" ..
next
  assume "\<exists>r. s = p @ r"
  then show "startswith s p" by (auto simp: startswith_def)
qed

lemma http_not_https: "startswith host ''http://'' \<Longrightarrow> \<not> startswith host ''https://''"
  by (auto simp: startswith_iff)

text \<open>
  Claim C9. For a configuration whose \<^verbatim>\<open>voipnowHost\<close> starts with \<^verbatim>\<open>http://\<close>, a value
  the URL check accepts, \<^verbatim>\<open>generate_token\<close> sends its request to \<^verbatim>\<open>https://\<close> followed by
  the whole configured host: the URL begins \<^verbatim>\<open>https://http://\<close> and is not the configured
  http URL.
\<close>

theorem http_host_gets_https_prefix:
  assumes "map_of config_mcp ''voipnowHost'' = Some (JStr host)"
    and "startswith host ''http://''"
    and "map_of config_mcp ''appId'' = Some app_id"
    and "map_of config_mcp ''appSecret'' = Some app_secret"
  shows "valid_scheme host
         \<and> map url (requests (snd (generate_token config_mcp w)))
             = map url (requests w) @ [''https://'' @ host @ ''/oauth/token.php'']
         \<and> startswith (''https://'' @ host @ ''/oauth/token.php'') ''https://http://''
         \<and> ''https://'' @ host @ ''/oauth/token.php'' \<noteq> host @ ''/oauth/token.php''"
proof -
  have u: "token_url host = ''https://'' @ host @ ''/oauth/token.php''"
    using http_not_https [OF assms(2)] by (simp add: token_url_def token_host_def)
  have "map url (requests (snd (generate_token config_mcp w)))
          = map url (requests w) @ [token_url host]"
    by (simp add: generate_token_requests [OF assms(1,3,4)])
  moreover have "startswith (''https://'' @ host @ ''/oauth/token.php'') ''https://http://''"
    using assms(2) by (auto simp: startswith_iff)
  moreover have "''https://'' @ host @ ''/oauth/token.php'' \<noteq> host @ ''/oauth/token.php''"
  proof
    assume "''https://'' @ host @ ''/oauth/token.php'' = host @ ''/oauth/token.php''"
    then have "length (''https://'' @ host @ ''/oauth/token.php'') = length (host @ ''/oauth/token.php'')"
      by (rule arg_cong)
    then show False by simp
  qed
  ultimately show ?thesis using assms(2) u by (simp add: valid_scheme_def)
qed

theorem http_host_gets_https_prefix_witness:
  "map_of http_config ''voipnowHost'' = Some (JStr ''http://pbx.example.com'')
   \<and> startswith ''http://pbx.example.com'' ''http://''
   \<and> map url (requests (snd (generate_token http_config demo_world)))
        = [''https://http://pbx.example.com/oauth/token.php'']"
  using http_host_gets_https_prefix [of http_config "''http://pbx.example.com''" "JStr ''A1''" "JStr ''S1''" demo_world]
  by (simp add: http_config_def startswith_def demo_world_def)

subsection \<open>Expiry and round trip\<close>

text \<open>
  Claim C5, as the code has it. \<^verbatim>\<open>check_token\<close> takes no horizon: the five minutes are
  written into it. For every credential line \<^verbatim>\<open>issuedAt:expiresAt:secret\<close> in the token
  file, it returns true exactly when the clock has reached \<open>expiresAt - 300\<close>, and at
  equality it returns true.
\<close>

theorem check_token_fixed_horizon:
  "files w p = Some (token_line issuedAt expiresAt secret) \<Longrightarrow>
   check_token w p = Inr (now w \<ge> expiresAt - 300)
   \<and> (now w = expiresAt - 300 \<longrightarrow> check_token w p = Inr True)"
  by (simp add: check_token_token_line EXPIRY_HORIZON_SECONDS_def)

theorem check_token_fixed_horizon_witness:
  "files boundary_world ''/tmp/tok'' = Some (token_line 0 1000 ''tok'')
   \<and> now boundary_world = 1000 - 300
   \<and> check_token boundary_world ''/tmp/tok'' = Inr True"
  using check_token_fixed_horizon [of boundary_world "''/tmp/tok''" 0 1000 "''tok''"]
  by (simp add: boundary_world_def demo_world_def)

text \<open>
  Claim C5 as stated speaks of every horizon \<open>h\<close>. With the token expiring at 1000 and
  the clock at 900, \<^verbatim>\<open>check_token\<close> answers true, while for the horizon \<open>h = 0\<close> the
  claimed condition \<open>now \<ge> expiresAt - h\<close> is false.
\<close>

theorem check_token_other_horizon_counterexample:
  "check_token inside_world ''/tmp/tok'' = Inr True
   \<and> \<not> (now inside_world \<ge> 1000 - 0)
   \<and> files inside_world ''/tmp/tok'' = Some (token_line 0 1000 ''tok'')"
proof -
  have f: "files inside_world ''/tmp/tok'' = Some (token_line 0 1000 ''tok'')"
    by (simp add: inside_world_def demo_world_def)
  have "check_token inside_world ''/tmp/tok'' = Inr (now inside_world \<ge> 1000 - EXPIRY_HORIZON_SECONDS)"
    using f by (rule check_token_token_line)
  then show ?thesis using f
    by (simp add: inside_world_def demo_world_def EXPIRY_HORIZON_SECONDS_def)
qed

text \<open>
  Claim C7, as the code has it. For a credential whose secret has no colon, no carriage
  return and no whitespace at its end, writing the line and reading it back gives the same
  line, its three fields are the three values written, \<^verbatim>\<open>get_expiration_timestamp\<close>
  returns the expiry, and the token taken from the line is the secret.
\<close>

theorem credential_roundtrip:
  assumes "CHR '':'' \<notin> set secret" and "secret = [] \<or> \<not> isspace (last secret)"
    and "CHR 0x0D \<notin> set secret"
  shows "safe_read_token_file (write_token_file p (token_line issuedAt expiresAt secret) w) p
           = Inr (token_line issuedAt expiresAt secret)
         \<and> split_on CHR '':'' (token_line issuedAt expiresAt secret)
             = [str_int issuedAt, str_int expiresAt, secret]
         \<and> py_int (str_int issuedAt) = Some issuedAt
         \<and> get_expiration_timestamp
              (write_token_file p (token_line issuedAt expiresAt secret) w) p = Inr expiresAt
         \<and> token_of_data (token_line issuedAt expiresAt secret) = secret"
proof -
  let ?w = "write_token_file p (token_line issuedAt expiresAt secret) w"
  have f: "files ?w p = Some (token_line issuedAt expiresAt secret)" by simp
  have r: "rstrip (universal_newlines secret) = secret"
    using assms(2,3) by (simp add: universal_newlines_id rstrip_noop)
  have "safe_read_token_file ?w p = Inr (token_line issuedAt expiresAt secret)"
    using safe_read_token_line [OF f] r by simp
  moreover have s: "split_on CHR '':'' (token_line issuedAt expiresAt secret)
             = [str_int issuedAt, str_int expiresAt, secret]"
    using assms(1) by (simp add: token_line_split split_on_no_sep)
  moreover have "get_expiration_timestamp ?w p = Inr expiresAt"
    using f by (rule get_expiration_timestamp_token_line)
  moreover have "token_of_data (token_line issuedAt expiresAt secret) = secret"
    by (simp add: token_of_data_def s)
  ultimately show ?thesis by (simp add: py_int_str_int)
qed

theorem credential_roundtrip_witness:
  "CHR '':'' \<notin> set ''abc'' \<and> \<not> isspace (last ''abc'') \<and> CHR 0x0D \<notin> set ''abc''
   \<and> safe_read_token_file (write_token_file ''/tmp/tok'' (token_line 1000 4600 ''abc'') demo_world)
        ''/tmp/tok'' = Inr (token_line 1000 4600 ''abc'')
   \<and> token_of_data (token_line 1000 4600 ''abc'') = ''abc''"
  using credential_roundtrip [of "''abc''" "''/tmp/tok''" 1000 4600 demo_world]
  by (simp add: isspace_def)

text \<open>
  Claim C7 as stated covers every secret. The secret \<^verbatim>\<open>ab:cd\<close> is read back as \<^verbatim>\<open>cd\<close>
  by \<^verbatim>\<open>split(":")[-1]\<close>; the secret \<^verbatim>\<open>tok\<close> followed by a space comes back from
  \<^verbatim>\<open>_safe_read_token_file\<close> without the space; and a secret with a carriage return in
  its middle, which has neither a colon nor whitespace at its end, comes back with a line
  feed in its place, because the file is read in text mode.
\<close>

theorem credential_roundtrip_counterexample:
  "safe_read_token_file (write_token_file ''/tmp/tok'' (token_line 1000 4600 ''ab:cd'') demo_world)
     ''/tmp/tok'' = Inr (token_line 1000 4600 ''ab:cd'')
   \<and> token_of_data (token_line 1000 4600 ''ab:cd'') = ''cd''
   \<and> safe_read_token_file (write_token_file ''/tmp/tok'' (token_line 1000 4600 ''tok '') demo_world)
       ''/tmp/tok'' = Inr (token_line 1000 4600 ''tok'')
   \<and> token_of_data (token_line 1000 4600 ''tok'') = ''tok''
   \<and> CHR '':'' \<notin> set cr_secret
   \<and> \<not> isspace (last cr_secret)
   \<and> safe_read_token_file (write_token_file ''/tmp/tok'' (token_line 1000 4600 cr_secret) demo_world)
       ''/tmp/tok'' = Inr (token_line 1000 4600 lf_secret)
   \<and> token_of_data (token_line 1000 4600 lf_secret) = lf_secret
   \<and> lf_secret \<noteq> cr_secret"
proof -
  have a: "rstrip ''ab:cd'' = ''ab:cd''" by (simp add: rstrip_def isspace_def)
  have b: "rstrip ''tok '' = ''tok''" by (simp add: rstrip_def isspace_def)
  have c: "rstrip (universal_newlines cr_secret) = lf_secret"
    by (simp add: rstrip_def isspace_def cr_secret_def lf_secret_def)
  have "safe_read_token_file (write_token_file ''/tmp/tok'' (token_line 1000 4600 s) demo_world)
          ''/tmp/tok'' = Inr (token_line 1000 4600 (rstrip (universal_newlines s)))" for s
    by (rule safe_read_token_line) simp
  then show ?thesis
    by (simp add: a b c token_of_data_def token_line_split)
       (simp add: cr_secret_def lf_secret_def isspace_def)
qed

section \<open>The expiration checker and the file watcher\<close>

subsection \<open>The expiration checker\<close>

lemma stopped_stays_stopped:
  assumes "\<not> running c" and "\<not> is_start ev"
  shows "\<not> running (checker_step c ev)
         \<and> timers_started (checker_step c ev) = timers_started c
         \<and> (timer c = None \<longrightarrow> timer (checker_step c ev) = None)"
  using assms
  by (cases ev) (simp_all add: check_token_step_def schedule_next_check_def stop_def)

lemma stopped_forever:
  assumes "\<not> running c" and "timer c = None" and "\<forall>ev \<in> set evs. \<not> is_start ev"
  shows "\<not> running (foldl checker_step c evs)
         \<and> timer (foldl checker_step c evs) = None
         \<and> timers_started (foldl checker_step c evs) = timers_started c"
  using assms
proof (induction evs arbitrary: c)
  case Nil
  then show ?case by simp
next
  case (Cons ev evs)
  then have "\<not> is_start ev" by simp
  from stopped_stays_stopped [OF Cons.prems(1) this] Cons.prems(2)
  have s: "\<not> running (checker_step c ev)" "timer (checker_step c ev) = None"
    "timers_started (checker_step c ev) = timers_started c"
    by simp_all
  from Cons.IH [OF s(1) s(2)] Cons.prems(3) s(3) show ?case by simp
qed

lemma invalid_client_step:
  assumes "running c"
    and "map_of (chk_config c) ''voipnowTokenFile'' = Some (JStr p)" and "p \<noteq> []"
    and "check_token w p = Inr True"
    and "generate_token (chk_config c) w = (Inl (HTTPError status body), w1)"
    and "is_invalid_client status body"
  shows "check_token_step c w = (None, stop c, w1)"
  using assms by (simp add: check_token_step_def)

text \<open>
  Claim C2, as the code has it. A check that finds the token expiring, asks the endpoint
  and is rejected with status 401 and a JSON body whose \<^verbatim>\<open>error\<close> is \<^verbatim>\<open>invalid_client\<close>
  leaves the checker stopped with no timer, and whatever comes after it short of a
  \<^verbatim>\<open>start\<close> (a late timer entering \<^verbatim>\<open>_check_token\<close> in any world, a call of
  \<^verbatim>\<open>_schedule_next_check\<close>, a \<^verbatim>\<open>stop\<close>) starts no timer.
\<close>

theorem invalid_client_stops_checker:
  assumes "running c"
    and "map_of (chk_config c) ''voipnowTokenFile'' = Some (JStr p)" and "p \<noteq> []"
    and "check_token w p = Inr True"
    and "generate_token (chk_config c) w = (Inl (HTTPError status body), w1)"
    and "is_invalid_client status body"
    and "\<forall>ev \<in> set evs. \<not> is_start ev"
  shows "\<not> running (fst (snd (check_token_step c w)))
         \<and> timer (fst (snd (check_token_step c w))) = None
         \<and> timers_started (fst (snd (check_token_step c w))) = timers_started c
         \<and> \<not> running (foldl checker_step (fst (snd (check_token_step c w))) evs)
         \<and> timer (foldl checker_step (fst (snd (check_token_step c w))) evs) = None
         \<and> timers_started (foldl checker_step (fst (snd (check_token_step c w))) evs)
             = timers_started c"
proof -
  have step: "fst (snd (check_token_step c w)) = stop c"
    using invalid_client_step [OF assms(1-6)] by simp
  have "\<not> running (stop c)" and "timer (stop c) = None"
    and ts: "timers_started (stop c) = timers_started c"
    by (simp_all add: stop_def)
  from stopped_forever [OF this(1,2) assms(7)] ts show ?thesis
    unfolding step by (simp add: stop_def)
qed

lemma demo_generate_rejected:
  "generate_token demo_config rejecting_world
     = (Inl (HTTPError 401 (Some [(''error'', JStr ''invalid_client'')])),
        snd (generate_token demo_config rejecting_world))"
  by (simp add: generate_token_def demo_config_def rejecting_world_def post_token_def Let_def)

theorem invalid_client_stops_checker_witness:
  "running demo_checker
   \<and> check_token rejecting_world ''/tmp/tok'' = Inr True
   \<and> is_invalid_client 401 (Some [(''error'', JStr ''invalid_client'')])
   \<and> \<not> running (foldl checker_step (fst (snd (check_token_step demo_checker rejecting_world)))
                  [CheckToken rejecting_world, ScheduleNext 60, Stop, CheckToken demo_world])
   \<and> timer (foldl checker_step (fst (snd (check_token_step demo_checker rejecting_world)))
                  [CheckToken rejecting_world, ScheduleNext 60, Stop, CheckToken demo_world]) = None
   \<and> timers_started (foldl checker_step (fst (snd (check_token_step demo_checker rejecting_world)))
                  [CheckToken rejecting_world, ScheduleNext 60, Stop, CheckToken demo_world]) = 1"
proof -
  have r: "running demo_checker" and ts: "timers_started demo_checker = 1"
    and cfg: "chk_config demo_checker = demo_config"
    by (simp_all add: demo_checker_def start_def new_checker_def schedule_next_check_def)
  have p: "map_of (chk_config demo_checker) ''voipnowTokenFile'' = Some (JStr ''/tmp/tok'')"
    by (simp add: cfg demo_config_def)
  have f: "files rejecting_world ''/tmp/tok'' = Some (token_line 0 1000 ''tok'')"
    by (simp add: rejecting_world_def)
  have ct: "check_token rejecting_world ''/tmp/tok'' = Inr True"
    using check_token_token_line [OF f]
    by (simp add: rejecting_world_def EXPIRY_HORIZON_SECONDS_def)
  have g: "generate_token (chk_config demo_checker) rejecting_world
     = (Inl (HTTPError 401 (Some [(''error'', JStr ''invalid_client'')])),
        snd (generate_token demo_config rejecting_world))"
    unfolding cfg by (rule demo_generate_rejected)
  have ic: "is_invalid_client 401 (Some [(''error'', JStr ''invalid_client'')])"
    by (simp add: is_invalid_client_def)
  have ns: "\<forall>ev \<in> set [CheckToken rejecting_world, ScheduleNext 60, Stop, CheckToken demo_world].
              \<not> is_start ev"
    by simp
  from invalid_client_stops_checker [OF r p _ ct g ic ns] r ct ic ts show ?thesis by simp
qed

text \<open>
  Claim C2 as stated speaks of every rejection with the error code \<^verbatim>\<open>invalid_client\<close>.
  When the endpoint sends that code under status 400, the checker takes it for a
  transient failure: it keeps running and starts a timer for a retry after 60 seconds.
\<close>

theorem invalid_client_400_counterexample:
  "running demo_checker
   \<and> timers_started demo_checker = 1
   \<and> check_token bad_request_world ''/tmp/tok'' = Inr True
   \<and> fst (generate_token demo_config bad_request_world)
       = Inl (HTTPError 400 (Some [(''error'', JStr ''invalid_client'')]))
   \<and> running (fst (snd (check_token_step demo_checker bad_request_world)))
   \<and> timer (fst (snd (check_token_step demo_checker bad_request_world))) = Some 60
   \<and> timers_started (fst (snd (check_token_step demo_checker bad_request_world))) = 2"
proof -
  have f: "files bad_request_world ''/tmp/tok'' = Some (token_line 0 1000 ''tok'')"
    by (simp add: bad_request_world_def rejecting_world_def)
  have ct: "check_token bad_request_world ''/tmp/tok'' = Inr True"
    using check_token_token_line [OF f]
    by (simp add: bad_request_world_def rejecting_world_def EXPIRY_HORIZON_SECONDS_def)
  obtain w1 where g: "generate_token demo_config bad_request_world
     = (Inl (HTTPError 400 (Some [(''error'', JStr ''invalid_client'')])), w1)"
    by (simp add: generate_token_def demo_config_def bad_request_world_def rejecting_world_def
          post_token_def Let_def)
  have c: "demo_checker = \<lparr> chk_config = demo_config, interval = 300, running = True,
                            timer = Some 10, timers_started = 1 \<rparr>"
    by (simp add: demo_checker_def start_def new_checker_def schedule_next_check_def)
  have t: "map_of demo_config ''voipnowTokenFile'' = Some (JStr ''/tmp/tok'')"
    by (simp add: demo_config_def)
  have "check_token_step demo_checker bad_request_world
          = (None, schedule_next_check 60 demo_checker, w1)"
    unfolding c check_token_step_def
    by (simp add: t ct g is_invalid_client_def retry_delay_def)
  then show ?thesis using ct g by (simp add: c schedule_next_check_def)
qed

subsection \<open>The file watcher\<close>

lemma on_modified_debounced:
  assumes "last_reload_time h (src_path e) = Some t" and "time_diff (at_time e) t < 1"
  shows "snd (on_modified secure fingerprint config_file time_diff e (h, a, w))
           = (h, a, outside e w)"
  using assms by (simp add: on_modified_def Let_def)

lemma dispatch_debounced:
  assumes "last_reload_time h p = Some t"
    and "\<forall>e \<in> set evs. src_path e = p \<and> time_diff (at_time e) t < 1"
  shows "dispatch_events secure fingerprint config_file time_diff evs (h, a, w)
           = (h, a, foldl (\<lambda>v e. outside e v) w evs)"
  using assms
proof (induction evs arbitrary: w)
  case Nil
  then show ?case by simp
next
  case (Cons e evs)
  have "last_reload_time h (src_path e) = Some t" and "time_diff (at_time e) t < 1"
    using Cons.prems by simp_all
  from on_modified_debounced
         [where time_diff = time_diff, OF this, of secure fingerprint config_file a w]
  have "snd (on_modified secure fingerprint config_file time_diff e (h, a, w))
          = (h, a, outside e w)" .
  with Cons.IH [OF Cons.prems(1), of "outside e w"] Cons.prems(2) show ?case by simp
qed

lemma on_modified_accepted:
  assumes "accepted config_file time_diff h a ev"
  shows "snd (on_modified secure fingerprint config_file time_diff ev (h, a, w))
           = (h\<lparr>last_reload_time := (last_reload_time h)(src_path ev \<mapsto> at_time ev)\<rparr>,
              snd (load_config secure fingerprint a (outside ev w)))"
proof -
  obtain res a1 w1 where lc: "load_config secure fingerprint a (outside ev w) = (res, a1, w1)"
    by (metis prod_cases3)
  show ?thesis
    using assms lc
    by (auto simp: on_modified_def accepted_def Let_def split: option.splits)
qed

text \<open>
  Claim C8. A burst of events for one path, the first of which the handler accepts and
  each later one less than a second after it by the handler's clock test, produces
  exactly one reload: after the burst the application is what one call of
  \<^verbatim>\<open>load_config\<close>, made for the first event, left of it, and the world is what that call
  left followed by what the outside did with the later events. The later events only
  leave the time of the first in \<^verbatim>\<open>last_reload_time\<close>.
\<close>

theorem burst_gives_one_reload:
  assumes "accepted config_file time_diff h a ev"
    and "\<forall>e \<in> set evs. src_path e = src_path ev \<and> time_diff (at_time e) (at_time ev) < 1"
  shows "dispatch_events secure fingerprint config_file time_diff (ev # evs) (h, a, w)
           = (h\<lparr>last_reload_time := (last_reload_time h)(src_path ev \<mapsto> at_time ev)\<rparr>,
              fst (snd (load_config secure fingerprint a (outside ev w))),
              foldl (\<lambda>v e. outside e v)
                (snd (snd (load_config secure fingerprint a (outside ev w)))) evs)"
proof -
  let ?h1 = "h\<lparr>last_reload_time := (last_reload_time h)(src_path ev \<mapsto> at_time ev)\<rparr>"
  have "last_reload_time ?h1 (src_path ev) = Some (at_time ev)" by simp
  note rest = dispatch_debounced [where time_diff = time_diff, OF this assms(2)]
  obtain res a1 w1 where lc: "load_config secure fingerprint a (outside ev w) = (res, a1, w1)"
    by (metis prod_cases3)
  with on_modified_accepted [OF assms(1), of secure fingerprint w]
  have "snd (on_modified secure fingerprint config_file time_diff ev (h, a, w)) = (?h1, a1, w1)"
    by simp
  then show ?thesis
    using rest [of secure fingerprint config_file a1 w1] lc by simp
qed

theorem burst_gives_one_reload_witness:
  "accepted ''/etc/mcp.json'' (\<lambda>x y. x - y) init_watcher init_app (burst_event 10)
   \<and> src_path (burst_event 10.25) = src_path (burst_event 10)
   \<and> at_time (burst_event 10.25) - at_time (burst_event 10) < 1
   \<and> src_path (burst_event 10.75) = src_path (burst_event 10)
   \<and> at_time (burst_event 10.75) - at_time (burst_event 10) < 1
   \<and> dispatch_events False demo_fingerprint ''/etc/mcp.json'' (\<lambda>x y. x - y)
        [burst_event 10, burst_event 10.25, burst_event 10.75]
        (init_watcher, init_app, demo_world)
       = (init_watcher\<lparr>last_reload_time := [''/etc/mcp.json'' \<mapsto> 10]\<rparr>,
          loaded_app, loaded_world)"
  using burst_gives_one_reload [of "''/etc/mcp.json''" "\<lambda>x y. x - y" init_watcher init_app
          "burst_event 10" "[burst_event 10.25, burst_event 10.75]" False demo_fingerprint
          demo_world]
  by (simp add: accepted_def init_watcher_def init_app_def init_manager_def burst_event_def
        get_or_def loaded_app_def loaded_world_def)

section \<open>Loading the configuration\<close>

subsection \<open>Validation\<close>

lemma missing_keys_Nil: "missing_keys raw = [] \<longleftrightarrow> (\<forall>k \<in> set required_keys. has_key raw k)"
  by (simp add: missing_keys_def filter_empty_conv)

lemma extra_keys_Nil:
  "extra_keys raw = [] \<longleftrightarrow> (\<forall>k \<in> set (map fst raw). k \<in> set allowed_keys)"
  by (simp add: extra_keys_def filter_empty_conv)

lemma valid_scheme_Nil [simp]: "\<not> valid_scheme []"
  by (simp add: valid_scheme_def startswith_def)

lemma set_log_level_string: "set_log_level (JStr s) = Inr (if map upper_char s \<in> set level_names then map upper_char s else ''INFO'')"
  by (simp add: set_log_level_def Let_def)

lemma validate_accept_iff:
  assumes "config_data m = []"
    and "get_or raw ''logLevel'' (JStr ''INFO'') = JStr lvl"
  shows "fst (validate_config secure m raw) = Inr Accept \<longleftrightarrow>
           missing_keys raw = [] \<and> extra_keys raw = []
           \<and> (\<exists>host. map_of raw ''voipnowHost'' = Some (JStr host) \<and> valid_scheme host)
           \<and> (secure \<longrightarrow> has_key raw ''authTokenMCP'')"
proof (cases "missing_keys raw = [] \<and> extra_keys raw = []")
  case False
  then show ?thesis using assms by (auto simp: validate_config_def Let_def)
next
  case True
  then have tf: "has_key raw ''voipnowTokenFile''" and h: "has_key raw ''voipnowHost''"
    by (simp_all add: missing_keys_Nil required_keys_def)
  from h obtain v where v: "map_of raw ''voipnowHost'' = Some v"
    by (auto simp: has_key_def)
  show ?thesis
    using True assms tf v
    by (cases v) (auto simp: validate_config_def Let_def set_log_level_string get_or_def)
qed

subsection \<open>How \<^const>\<open>load_config\<close> ends\<close>

lemma load_config_with_locked:
  "lock_held a \<Longrightarrow> load_config_with reload secure fingerprint a w = (Blocked, a, w)"
  by (simp add: load_config_with_def)

lemma load_config_locked:
  "lock_held a \<Longrightarrow> load_config secure fingerprint a w = (Blocked, a, w)"
  by (subst load_config.simps) (simp add: load_config_with_locked)

lemma load_config_unfold:
  "load_config secure fingerprint a w =
     (if lock_held a then (Blocked, a, w)
      else (case try_body secure fingerprint (mgr a) w of
         (Inr u, m1, w1) \<Rightarrow> (Returned, \<lparr>mgr = m1, lock_held = False\<rparr>, w1)
       | (Inl e, m1, w1) \<Rightarrow>
           if value_key_runtime e \<and> mentions_token e \<and> config_data m1 \<noteq> [] then
             (case generate_token (config_data m1) w1 of
                (Inr u, w2) \<Rightarrow> (Blocked, \<lparr>mgr = m1, lock_held = True\<rparr>, w2)
              | (Inl regen_error, w2) \<Rightarrow>
                  if regen_caught regen_error
                  then (handle_exn e m1, \<lparr>mgr = m1, lock_held = False\<rparr>, w2)
                  else (Raised regen_error, \<lparr>mgr = m1, lock_held = False\<rparr>, w2))
           else (handle_exn e m1, \<lparr>mgr = m1, lock_held = False\<rparr>, w1)))"
  by (subst load_config.simps)
     (simp add: load_config_with_def load_config_locked split: prod.splits sum.splits)

lemma load_config_ok:
  assumes "\<not> lock_held a" and "try_body secure fingerprint (mgr a) w = (Inr u, m1, w1)"
  shows "load_config secure fingerprint a w = (Returned, \<lparr>mgr = m1, lock_held = False\<rparr>, w1)"
  using assms by (subst load_config_unfold) simp

lemma load_config_handled:
  assumes "\<not> lock_held a" and "try_body secure fingerprint (mgr a) w = (Inl e, m1, w1)"
    and "\<not> (value_key_runtime e \<and> mentions_token e \<and> config_data m1 \<noteq> [])"
  shows "load_config secure fingerprint a w
           = (handle_exn e m1, \<lparr>mgr = m1, lock_held = False\<rparr>, w1)"
  using assms by (subst load_config_unfold) auto

lemma load_config_retry_blocked:
  assumes "\<not> lock_held a" and "try_body secure fingerprint (mgr a) w = (Inl e, m1, w1)"
    and "value_key_runtime e" and "mentions_token e" and "config_data m1 \<noteq> []"
    and "generate_token (config_data m1) w1 = (Inr u, w2)"
  shows "load_config secure fingerprint a w = (Blocked, \<lparr>mgr = m1, lock_held = True\<rparr>, w2)"
  using assms by (subst load_config_unfold) simp

lemma load_config_retry_failed:
  assumes "\<not> lock_held a" and "try_body secure fingerprint (mgr a) w = (Inl e, m1, w1)"
    and "value_key_runtime e" and "mentions_token e" and "config_data m1 \<noteq> []"
    and "generate_token (config_data m1) w1 = (Inl regen_error, w2)"
  shows "load_config secure fingerprint a w
           = (if regen_caught regen_error then handle_exn e m1 else Raised regen_error,
              \<lparr>mgr = m1, lock_held = False\<rparr>, w2)"
  using assms by (subst load_config_unfold) simp

lemma invalid_scheme_raises:
  assumes "\<not> lock_held a" and "config_doc w = Document raw"
    and "missing_keys raw = []" and "extra_keys raw = []"
    and "get_or raw ''logLevel'' (JStr ''INFO'') = JStr lvl"
    and "map_of raw ''voipnowHost'' = Some (JStr host)" and "\<not> valid_scheme host"
  shows "fst (load_config secure fingerprint a w) = Raised (ConfigurationError ''Invalid URL format.'')"
proof -
  obtain m1 where v: "validate_config secure (mgr a) raw
                       = (Inl (ConfigurationError ''Invalid URL format.''), m1)"
    using assms(3-7) by (simp add: validate_config_def Let_def set_log_level_string get_or_def)
  then have "try_body secure fingerprint (mgr a) w
               = (Inl (ConfigurationError ''Invalid URL format.''), m1, w)"
    using assms(2) by (simp add: try_body_def)
  from load_config_handled [OF assms(1) this] show ?thesis by simp
qed

lemmas eval_defs =
  init_app_def init_manager_def demo_world_def try_body_def demo_config_def
  validate_config_def missing_keys_def extra_keys_def required_keys_def allowed_keys_def
  has_key_def Let_def get_or_def set_log_level_def level_names_def upper_char_def
  valid_scheme_def startswith_def normalize_insecure_def refresh_token_def
  check_config_change_def needs_regeneration_def generate_token_def post_token_def read_text_def
  demo_grant_def token_data_of_def write_token_file_def write_atomic_def token_url_def
  token_host_def start_token_expiration_check_def

lemma first_load_demo:
  "fst (load_config False demo_fingerprint init_app demo_world) = Returned"
  "config_data (mgr loaded_app) = demo_config"
  "\<not> lock_held loaded_app"
  unfolding loaded_app_def
  by (simp_all add: load_config_unfold eval_defs safe_read_token_line)

text \<open>
  Claim C1, evaluated on the code. After a first load that succeeded, a reload of a
  document whose \<^verbatim>\<open>voipnowHost\<close> starts with \<^verbatim>\<open>ftp://\<close> does not return: the
  ConfigurationError of the URL check leaves \<^verbatim>\<open>load_config\<close>, re-raised by its own
  \<^verbatim>\<open>except ConfigurationError\<close> clause.
\<close>

theorem reload_with_bad_scheme_raises:
  "fst (load_config False demo_fingerprint init_app demo_world) = Returned
   \<and> config_data (mgr loaded_app) = demo_config
   \<and> fst (load_config False demo_fingerprint loaded_app
             (loaded_world\<lparr>config_doc := Document ftp_config\<rparr>))
       = Raised (ConfigurationError ''Invalid URL format.'')"
proof -
  have "fst (load_config False demo_fingerprint loaded_app
             (loaded_world\<lparr>config_doc := Document ftp_config\<rparr>))
       = Raised (ConfigurationError ''Invalid URL format.'')"
    by (rule invalid_scheme_raises [where raw = ftp_config and lvl = "''INFO''"
          and host = "''ftp://pbx.example.com''"])
       (simp_all add: first_load_demo ftp_config_def missing_keys_def extra_keys_def
          required_keys_def allowed_keys_def has_key_def get_or_def valid_scheme_def
          startswith_def)
  then show ?thesis by (simp add: first_load_demo)
qed

text \<open>
  In a reload whose first token request is answered without an \<^verbatim>\<open>access_token\<close>, the
  KeyError mentions a token, the handler generates a token and calls \<^verbatim>\<open>load_config\<close> again
  while it still holds the manager's lock: the inner call waits for that lock, so the
  reload does not return and the lock stays held.
\<close>

lemma token_error_retry_waits:
  "config_data (mgr loaded_app) \<noteq> []
   \<and> fst (load_config False demo_fingerprint loaded_app tokenless_world) = Blocked
   \<and> lock_held (fst (snd (load_config False demo_fingerprint loaded_app tokenless_world)))
   \<and> length (requests (snd (snd (load_config False demo_fingerprint loaded_app tokenless_world)))) = 2"
proof -
  have c: "config_data (mgr loaded_app) = demo_config" and l: "\<not> lock_held loaded_app"
    by (rule first_load_demo)+
  have m: "mentions_token (KeyError (quoted ''access_token''))"
    by (simp add: mentions_token_def quoted_def lower_def lower_char_def startswith_def)
  have "load_config False demo_fingerprint loaded_app tokenless_world
          = (Blocked,
             fst (snd (load_config False demo_fingerprint loaded_app tokenless_world)),
             snd (snd (load_config False demo_fingerprint loaded_app tokenless_world)))
        \<and> lock_held (fst (snd (load_config False demo_fingerprint loaded_app tokenless_world)))
        \<and> length (requests (snd (snd (load_config False demo_fingerprint loaded_app tokenless_world)))) = 2"
    using c l m
    by (simp add: load_config_unfold [of _ _ loaded_app] tokenless_world_def
          tokenless_reply_def eval_defs)
  then show ?thesis using c by (simp add: demo_config_def) (metis fst_conv)
qed


subsection \<open>The accepted load\<close>

lemma map_of_normalize_insecure:
  "k \<noteq> ''insecure'' \<Longrightarrow> map_of (normalize_insecure raw) k = map_of raw k"
  by (simp add: normalize_insecure_def update_conv' split: option.splits)

lemma get_or_normalize_insecure:
  "k \<noteq> ''insecure'' \<Longrightarrow> get_or (normalize_insecure raw) k d = get_or raw k d"
  by (simp add: get_or_def map_of_normalize_insecure)

lemma validate_accept:
  assumes "validate_config secure m raw = (Inr Accept, m1)"
  shows "missing_keys raw = []" and "extra_keys raw = []"
    and "\<exists>host. map_of raw ''voipnowHost'' = Some (JStr host) \<and> valid_scheme host"
    and "config_data m1 = config_data m"
  using assms
  by (auto simp: validate_config_def Let_def get_or_def
           split: if_splits sum.splits json.splits option.splits)

lemma refresh_token_ok:
  assumes "refresh_token fingerprint m w = (Inr u, m3, w3)"
    and "get_or (config_data m) ''voipnowTokenFile'' JNull = JStr p"
  shows "\<exists>token_data. safe_read_token_file w3 p = Inr token_data
           \<and> m3 = m\<lparr>voipnow_token := Some (token_of_data token_data)\<rparr>"
  using assms
  by (auto simp: refresh_token_def Let_def split: prod.splits sum.splits if_splits)

lemma try_body_accept:
  assumes "config_doc w = Document raw"
    and "validate_config secure m raw = (Inr Accept, m1)"
  shows "try_body secure fingerprint m w =
           (case refresh_token fingerprint (m1\<lparr>config_data := normalize_insecure raw\<rparr>) w of
              (Inl e, m3, w3) \<Rightarrow> (Inl e, m3, w3)
            | (Inr u, m3, w3) \<Rightarrow>
                (Inr (),
                 start_token_expiration_check
                   (m3\<lparr>voipnow_config :=
                         Some \<lparr> voipnowUrl = get_or (config_data m3) ''voipnowHost'' (JStr []),
                                voipnowToken = voipnow_token m3,
                                insecure = get_or (config_data m3) ''insecure'' (JBool False) \<rparr>\<rparr>),
                 w3))"
  using assms by (simp add: try_body_def Let_def)

lemma notin_after_last: "c \<notin> set (after_last c s)"
  by (auto simp: after_last_def dest: set_takeWhileD)

lemma token_of_data_three_fields:
  "token_of_data (issued @ CHR '':'' # expires @ CHR '':'' # secret) = after_last CHR '':'' secret"
  unfolding token_of_data_def last_split_on_append by (rule last_split_on_after_last)


lemma colon_world_load:
  "try_body False demo_fingerprint (mgr init_app) colon_world
     = (Inr (), fst (snd (try_body False demo_fingerprint (mgr init_app) colon_world)), colon_world
          \<lparr>files := (files colon_world)(''/tmp/tok.config_hash'' \<mapsto> ''A1|S1|https://pbx.example.com'')\<rparr>)"
  by (simp add: colon_world_def eval_defs safe_read_token_line check_token_token_line
        EXPIRY_HORIZON_SECONDS_def demo_fingerprint_def)


subsection \<open>The fingerprint and the reissue\<close>

lemma mentions_token_keys [simp]:
  "mentions_token (KeyError (quoted ''access_token''))"
  "\<not> mentions_token (KeyError (quoted ''expires_in''))"
  by (simp_all add: mentions_token_def quoted_def lower_def lower_char_def startswith_def)

lemma check_config_change_changed:
  assumes "read_text w (p @ ''.config_hash'') = Some stored"
    and "strip stored \<noteq> fingerprint (get_or cfg ''appId'' (JStr []))
                           (get_or cfg ''appSecret'' (JStr []))
                           (get_or cfg ''voipnowHost'' (JStr []))"
    and "map_of cfg ''voipnowTokenFile'' = Some (JStr p)" and "p \<noteq> []"
  shows "fst (check_config_change fingerprint cfg (p @ ''.config_hash'') w)"
    and "files (snd (check_config_change fingerprint cfg (p @ ''.config_hash'') w)) p = None"
    and "requests (snd (check_config_change fingerprint cfg (p @ ''.config_hash'') w)) = requests w"
    and "endpoint (snd (check_config_change fingerprint cfg (p @ ''.config_hash'') w)) = endpoint w"
    and "now (snd (check_config_change fingerprint cfg (p @ ''.config_hash'') w)) = now w"
    and "files (snd (check_config_change fingerprint cfg (p @ ''.config_hash'') w))
           (p @ ''.config_hash'')
         = Some (fingerprint (get_or cfg ''appId'' (JStr []))
                             (get_or cfg ''appSecret'' (JStr []))
                             (get_or cfg ''voipnowHost'' (JStr [])))"
  using assms by (simp_all add: check_config_change_def Let_def write_atomic_def)

lemma check_config_change_same:
  assumes "read_text w hf = Some stored"
    and "strip stored = fingerprint (get_or cfg ''appId'' (JStr []))
                           (get_or cfg ''appSecret'' (JStr []))
                           (get_or cfg ''voipnowHost'' (JStr []))"
  shows "check_config_change fingerprint cfg hf w = (False, w)"
  using assms by (simp add: check_config_change_def Let_def)

lemma post_token_result:
  assumes "post_token req w = (r, w1)"
  shows "w1 = w\<lparr>requests := requests w @ [req]\<rparr>"
  using assms by (auto simp: post_token_def Let_def split: reply.splits option.splits if_splits)

lemma generate_token_result:
  assumes "generate_token cfg w = (r, w')"
    and "map_of cfg ''voipnowHost'' = Some (JStr host)"
    and "map_of cfg ''appId'' = Some app_id"
    and "map_of cfg ''appSecret'' = Some app_secret"
    and "map_of cfg ''voipnowTokenFile'' = Some (JStr p)"
  shows "length (requests w') = Suc (length (requests w))"
    and "endpoint w' = endpoint w"
    and "case r of
           Inr u \<Rightarrow> \<not> tokenless_grant (endpoint w (length (requests w)))
                    \<and> (\<exists>n t. files w' p = Some (token_line (now w) (now w + n) t))
         | Inl e \<Rightarrow> (value_key_runtime e \<and> mentions_token e)
                      = tokenless_grant (endpoint w (length (requests w)))"
    and "now w' = now w"
    and "files w' = (case granted_line (now w) (endpoint w (length (requests w))) of
                       None \<Rightarrow> files w
                     | Some d \<Rightarrow> write_atomic p d (files w))"
    and "(\<exists>u. r = Inr u) \<longleftrightarrow> granted_line (now w) (endpoint w (length (requests w))) \<noteq> None"
proof -
  let ?req = "\<lparr> url = token_url host, client_id = app_id,
                 client_secret = app_secret, redirect_uri = token_url host,
                 verify = (\<not> truthy (get_or cfg ''insecure'' (JBool False))) \<rparr>"
  obtain r1 w1 where pt: "post_token ?req w = (r1, w1)" by (cases "post_token ?req w")
  from post_token_result [OF pt] have w1: "w1 = w\<lparr>requests := requests w @ [?req]\<rparr>" .
  have g: "generate_token cfg w =
          (case r1 of
             Inl e \<Rightarrow> (Inl e, w1)
           | Inr js \<Rightarrow>
               (case token_data_of (now w1) js of
                  Inl e \<Rightarrow> (Inl e, w1)
                | Inr token_data \<Rightarrow> (Inr (), write_token_file p token_data w1)))"
    using assms(2-5) pt by (simp add: generate_token_def split: sum.splits)
  show "length (requests w') = Suc (length (requests w))"
    using assms(1) g w1 by (auto split: sum.splits)
  show "endpoint w' = endpoint w"
    using assms(1) g w1 by (auto simp: write_token_file_def split: sum.splits)
  show "now w' = now w"
    using assms(1) g w1 by (auto simp: write_token_file_def split: sum.splits)
  have r1: "r1 = (case endpoint w (length (requests w)) of
                    SSLFailure \<Rightarrow> Inl SSLError
                  | ConnectionFailure \<Rightarrow> Inl ConnectionError
                  | TimeoutFailure \<Rightarrow> Inl Timeout
                  | OtherFailure \<Rightarrow> Inl RequestException
                  | Response status body \<Rightarrow>
                      if 400 \<le> status \<and> status < 600 then Inl (HTTPError status body)
                      else (case body of None \<Rightarrow> Inl RequestException | Some js \<Rightarrow> Inr js))"
    using pt by (auto simp: post_token_def Let_def split: reply.splits option.splits)
  show "files w' = (case granted_line (now w) (endpoint w (length (requests w))) of
                       None \<Rightarrow> files w
                     | Some d \<Rightarrow> write_atomic p d (files w))"
    using assms(1) g w1 r1
    by (auto simp: granted_line_def write_token_file_def
             split: reply.splits option.splits sum.splits if_splits)
  show "(\<exists>u. r = Inr u) \<longleftrightarrow> granted_line (now w) (endpoint w (length (requests w))) \<noteq> None"
    using assms(1) g w1 r1
    by (auto simp: granted_line_def split: reply.splits option.splits sum.splits if_splits)
  show "case r of
           Inr u \<Rightarrow> \<not> tokenless_grant (endpoint w (length (requests w)))
                    \<and> (\<exists>n t. files w' p = Some (token_line (now w) (now w + n) t))
         | Inl e \<Rightarrow> (value_key_runtime e \<and> mentions_token e)
                      = tokenless_grant (endpoint w (length (requests w)))"
  proof (cases "endpoint w (length (requests w))")
    case (Response status body)
    show ?thesis
    proof (cases "400 \<le> status \<and> status < 600")
      case True
      with Response pt have "r1 = Inl (HTTPError status body)"
        by (auto simp: post_token_def Let_def)
      with assms(1) g True Response show ?thesis
        by (auto simp: tokenless_grant_def split: option.splits)
    next
      case False
      show ?thesis
      proof (cases body)
        case None
        with Response False pt have "r1 = Inl RequestException"
          by (auto simp: post_token_def Let_def)
        with assms(1) g None Response show ?thesis
          by (auto simp: tokenless_grant_def)
      next
        case (Some js)
        with Response False pt have "r1 = Inr js"
          by (auto simp: post_token_def Let_def)
        with assms(1) g Some Response False w1 show ?thesis
          by (auto simp: tokenless_grant_def token_data_of_def
                   split: option.splits sum.splits intro!: exI)
      qed
    qed
  qed (use assms(1) g pt in \<open>auto simp: post_token_def Let_def tokenless_grant_def\<close>)
qed


lemma accepted_keys:
  assumes "validate_config secure m raw = (Inr Accept, m1)"
  obtains host app_id app_secret where
    "map_of (normalize_insecure raw) ''voipnowHost'' = Some (JStr host)"
    "map_of (normalize_insecure raw) ''appId'' = Some app_id"
    "map_of (normalize_insecure raw) ''appSecret'' = Some app_secret"
proof -
  from validate_accept(1) [OF assms]
  have "has_key raw ''appId''" and "has_key raw ''appSecret''"
    by (simp_all add: missing_keys_Nil required_keys_def)
  then obtain i s where "map_of raw ''appId'' = Some i" and "map_of raw ''appSecret'' = Some s"
    by (auto simp: has_key_def)
  moreover from validate_accept(3) [OF assms]
  obtain host where "map_of raw ''voipnowHost'' = Some (JStr host)" by blast
  ultimately show ?thesis using that by (simp add: map_of_normalize_insecure)
qed

lemma refresh_token_regenerate:
  assumes "get_or (config_data m) ''voipnowTokenFile'' JNull = JStr p" and "p \<noteq> []"
    and "check_config_change fingerprint (config_data m) (p @ ''.config_hash'') w = (ch, w1)"
    and "needs_regeneration w1 p"
    and "generate_token (config_data m) w1 = (r, w2)"
  shows "refresh_token fingerprint m w =
           (case r of
              Inl e \<Rightarrow> (Inl e, m, w2)
            | Inr u \<Rightarrow>
                (case safe_read_token_file w2 p of
                   Inl e \<Rightarrow> (Inl (RuntimeError ''Failed to generate valid token''), m, w2)
                 | Inr d \<Rightarrow> (Inr (), m\<lparr>voipnow_token := Some (token_of_data d)\<rparr>, w2)))"
  using assms by (simp add: refresh_token_def split: sum.splits)

lemma refresh_token_keep:
  assumes "get_or (config_data m) ''voipnowTokenFile'' JNull = JStr p" and "p \<noteq> []"
    and "check_config_change fingerprint (config_data m) (p @ ''.config_hash'') w = (ch, w1)"
    and "\<not> needs_regeneration w1 p"
  shows "refresh_token fingerprint m w =
           (case safe_read_token_file w1 p of
              Inl e \<Rightarrow> (Inl (RuntimeError ''Failed to generate valid token''), m, w1)
            | Inr d \<Rightarrow> (Inr (), m\<lparr>voipnow_token := Some (token_of_data d)\<rparr>, w1))"
  using assms by (simp add: refresh_token_def split: sum.splits)

lemma generate_token_pointwise:
  assumes "files w2 = (case g of None \<Rightarrow> files w1 | Some d \<Rightarrow> write_atomic p d (files w1))"
  shows "files w2 p = (case g of None \<Rightarrow> files w1 p | Some d \<Rightarrow> Some d)"
    and "files w2 (p @ ''.config_hash'') = files w1 (p @ ''.config_hash'')"
  using assms by (simp_all add: write_atomic_def split: option.splits)

lemma tokenless_grant_writes_nothing:
  "tokenless_grant r \<Longrightarrow> granted_line t r = None"
  by (auto simp: tokenless_grant_def granted_line_def token_data_of_def Let_def
           split: reply.splits option.splits sum.splits)

lemma changed_fingerprint_reload:
  assumes "\<not> lock_held a" and "config_doc w = Document raw"
    and "validate_config secure (mgr a) raw = (Inr Accept, m1)"
    and "map_of raw ''voipnowTokenFile'' = Some (JStr p)" and "p \<noteq> []"
    and "read_text w (p @ ''.config_hash'') = Some stored"
    and "strip stored \<noteq> fingerprint (get_or raw ''appId'' (JStr []))
                           (get_or raw ''appSecret'' (JStr []))
                           (get_or raw ''voipnowHost'' (JStr []))"
  shows "length (requests (snd (snd (load_config secure fingerprint a w))))
           = length (requests w)
             + (if tokenless_grant (endpoint w (length (requests w))) then 2 else 1)"
    and "files (snd (snd (load_config secure fingerprint a w))) p
           = granted_line (now w)
               (endpoint w (length (requests w)
                  + (if tokenless_grant (endpoint w (length (requests w))) then 1 else 0)))"
    and "files (snd (snd (load_config secure fingerprint a w))) (p @ ''.config_hash'')
           = Some (fingerprint (get_or raw ''appId'' (JStr []))
                               (get_or raw ''appSecret'' (JStr []))
                               (get_or raw ''voipnowHost'' (JStr [])))"
proof -
  let ?cfg = "normalize_insecure raw"
  let ?m2 = "m1\<lparr>config_data := ?cfg\<rparr>"
  let ?hf = "p @ ''.config_hash''"
  let ?w' = "snd (snd (load_config secure fingerprint a w))"
  let ?FP = "fingerprint (get_or raw ''appId'' (JStr []))
                         (get_or raw ''appSecret'' (JStr []))
                         (get_or raw ''voipnowHost'' (JStr []))"
  note tb = try_body_accept [OF assms(2,3), of fingerprint]
  have pk: "map_of ?cfg ''voipnowTokenFile'' = Some (JStr p)"
    using assms(4) by (simp add: map_of_normalize_insecure)
  then have gp: "get_or (config_data ?m2) ''voipnowTokenFile'' JNull = JStr p"
    by (simp add: get_or_def)
  obtain host app_id app_secret where keys:
    "map_of ?cfg ''voipnowHost'' = Some (JStr host)"
    "map_of ?cfg ''appId'' = Some app_id"
    "map_of ?cfg ''appSecret'' = Some app_secret"
    using accepted_keys [OF assms(3)] by blast
  have d: "strip stored \<noteq> fingerprint (get_or ?cfg ''appId'' (JStr []))
                           (get_or ?cfg ''appSecret'' (JStr []))
                           (get_or ?cfg ''voipnowHost'' (JStr []))"
    using assms(7) by (simp add: get_or_normalize_insecure)
  obtain ch w1 where ccc: "check_config_change fingerprint ?cfg ?hf w = (ch, w1)"
    by (cases "check_config_change fingerprint ?cfg ?hf w")
  from check_config_change_changed
         [where fingerprint = fingerprint and cfg = ?cfg, OF assms(6) d pk assms(5)] ccc
  have w1: "files w1 p = None" "requests w1 = requests w" "endpoint w1 = endpoint w"
    "now w1 = now w" "files w1 ?hf = Some ?FP"
    by (simp_all add: get_or_normalize_insecure)
  have nr: "needs_regeneration w1 p" using w1(1) by (simp add: needs_regeneration_def)
  obtain r w2 where g: "generate_token ?cfg w1 = (r, w2)"
    by (cases "generate_token ?cfg w1")
  note gr = generate_token_result [OF g keys pk]
  note gp1 = generate_token_pointwise [OF gr(5)]
  have w2: "files w2 p = granted_line (now w) (endpoint w (length (requests w)))"
    "files w2 ?hf = Some ?FP"
    using gp1 w1 by (simp_all split: option.splits)
  have ccc': "check_config_change fingerprint (config_data ?m2) ?hf w = (ch, w1)"
    and g': "generate_token (config_data ?m2) w1 = (r, w2)"
    using ccc g by simp_all
  note rt = refresh_token_regenerate [OF gp assms(5) ccc' nr g']
  have "length (requests ?w')
           = length (requests w)
             + (if tokenless_grant (endpoint w (length (requests w))) then 2 else 1)
        \<and> files ?w' p
           = granted_line (now w)
               (endpoint w (length (requests w)
                  + (if tokenless_grant (endpoint w (length (requests w))) then 1 else 0)))
        \<and> files ?w' ?hf = Some ?FP"
  proof (cases r)
    case (Inr u)
    with gr(3) obtain n t
      where f: "files w2 p = Some (token_line (now w1) (now w1 + n) t)"
        and nt: "\<not> tokenless_grant (endpoint w1 (length (requests w1)))"
      by auto
    from safe_read_token_line [OF f] rt Inr tb
    obtain m' where "try_body secure fingerprint (mgr a) w = (Inr (), m', w2)"
      by simp
    from load_config_ok [OF assms(1) this] gr(1) w1 w2 nt show ?thesis by simp
  next
    case (Inl e)
    with tb rt have tbe: "try_body secure fingerprint (mgr a) w = (Inl e, ?m2, w2)"
      by simp
    show ?thesis
    proof (cases "tokenless_grant (endpoint w (length (requests w)))")
      case True
      with gr(3) Inl w1 have vk: "value_key_runtime e" "mentions_token e" by auto
      have ne: "config_data ?m2 \<noteq> []" using keys(1) by auto
      obtain r2 w3 where g2: "generate_token ?cfg w2 = (r2, w3)"
        by (cases "generate_token ?cfg w2")
      note gr2 = generate_token_result [OF g2 keys pk]
      note gp2 = generate_token_pointwise [OF gr2(5)]
      have n2: "now w2 = now w" "length (requests w2) = Suc (length (requests w))"
        "endpoint w2 = endpoint w"
        using gr(1,2,4) w1 by simp_all
      have e1: "files w2 p = None"
        using w2(1) True by (simp add: tokenless_grant_writes_nothing)
      have w3: "files w3 p = granted_line (now w) (endpoint w (Suc (length (requests w))))"
        "files w3 ?hf = Some ?FP"
        using gp2 w2(2) e1 n2 by (simp_all split: option.splits)
      have g2': "generate_token (config_data ?m2) w2 = (r2, w3)" using g2 by simp
      have "?w' = w3"
      proof (cases r2)
        case (Inr u2)
        from load_config_retry_blocked [OF assms(1) tbe vk ne g2' [unfolded Inr]]
        show ?thesis by simp
      next
        case (Inl e2)
        from load_config_retry_failed [OF assms(1) tbe vk ne g2' [unfolded Inl]]
        show ?thesis by simp
      qed
      with True gr(1) gr2(1) w1 w3 show ?thesis by simp
    next
      case False
      with gr(3) Inl w1
      have "\<not> (value_key_runtime e \<and> mentions_token e \<and> config_data ?m2 \<noteq> [])"
        by auto
      from load_config_handled [OF assms(1) tbe this] False gr(1) w1 w2 show ?thesis by simp
    qed
  qed
  then show "length (requests ?w')
           = length (requests w)
             + (if tokenless_grant (endpoint w (length (requests w))) then 2 else 1)"
    and "files ?w' p
           = granted_line (now w)
               (endpoint w (length (requests w)
                  + (if tokenless_grant (endpoint w (length (requests w))) then 1 else 0)))"
    and "files ?w' ?hf = Some ?FP"
    by simp_all
qed

lemma unchanged_fingerprint_keeps_token:
  assumes "\<not> lock_held a" and "config_doc w = Document raw"
    and "validate_config secure (mgr a) raw = (Inr Accept, m1)"
    and "map_of raw ''voipnowTokenFile'' = Some (JStr p)" and "p \<noteq> []"
    and "read_text w (p @ ''.config_hash'') = Some stored"
    and "strip stored = fingerprint (get_or raw ''appId'' (JStr []))
                           (get_or raw ''appSecret'' (JStr []))
                           (get_or raw ''voipnowHost'' (JStr []))"
    and "files w p = Some (token_line issued expires secret)"
    and "now w < expires - 300"
  shows "fst (load_config secure fingerprint a w) = Returned"
    and "snd (snd (load_config secure fingerprint a w)) = w"
proof -
  let ?cfg = "normalize_insecure raw"
  let ?m2 = "m1\<lparr>config_data := ?cfg\<rparr>"
  note tb = try_body_accept [OF assms(2,3), of fingerprint]
  have pk: "map_of ?cfg ''voipnowTokenFile'' = Some (JStr p)"
    using assms(4) by (simp add: map_of_normalize_insecure)
  then have gp: "get_or (config_data ?m2) ''voipnowTokenFile'' JNull = JStr p"
    by (simp add: get_or_def)
  have s: "strip stored = fingerprint (get_or ?cfg ''appId'' (JStr []))
                           (get_or ?cfg ''appSecret'' (JStr []))
                           (get_or ?cfg ''voipnowHost'' (JStr []))"
    using assms(7) by (simp add: get_or_normalize_insecure)
  have ccc: "check_config_change fingerprint (config_data ?m2) (p @ ''.config_hash'') w = (False, w)"
    using check_config_change_same [where fingerprint = fingerprint and cfg = ?cfg, OF assms(6) s]
    by simp
  have nr: "\<not> needs_regeneration w p"
    using assms(8,9) check_token_token_line [OF assms(8)]
    by (simp add: needs_regeneration_def EXPIRY_HORIZON_SECONDS_def)
  from refresh_token_keep [OF gp assms(5) ccc nr] safe_read_token_line [OF assms(8)] tb
  obtain m' where "try_body secure fingerprint (mgr a) w = (Inr (), m', w)"
    by simp
  from load_config_ok [OF assms(1) this]
  show "fst (load_config secure fingerprint a w) = Returned"
    and "snd (snd (load_config secure fingerprint a w)) = w"
    by simp_all
qed

text \<open>
  Claim C4, as the code has it. Take a load that starts with the lock free, passes
  validation and finds a stored digest. If the digest differs from the one computed over
  \<^verbatim>\<open>appId\<close>, \<^verbatim>\<open>appSecret\<close> and \<^verbatim>\<open>voipnowHost\<close>, then, whether or not the old credential had
  expired, the world the load leaves behind has these three properties. It holds one more
  token request than before, or two more when the first request is answered by a success
  response whose body has a numeric \<^verbatim>\<open>expires_in\<close> and no \<^verbatim>\<open>access_token\<close> (then the
  token-error handler sends a second one). Its token file holds exactly the credential
  line that the last of these requests granted, and does not exist when that request
  granted none: nothing of the old credential is left. Its digest file holds the new
  digest. If the digest is the same and the token file holds a credential that is not
  within five minutes of expiry, the load returns and leaves the world as it was: no file
  is removed and no request is sent.
\<close>

theorem fingerprint_change_forces_reissue:
  assumes "\<not> lock_held a" and "config_doc w = Document raw"
    and "fst (validate_config secure (mgr a) raw) = Inr Accept"
    and "map_of raw ''voipnowTokenFile'' = Some (JStr p)" and "p \<noteq> []"
    and "read_text w (p @ ''.config_hash'') = Some stored"
  shows "(strip stored \<noteq> fingerprint (get_or raw ''appId'' (JStr []))
                            (get_or raw ''appSecret'' (JStr []))
                            (get_or raw ''voipnowHost'' (JStr []))
          \<longrightarrow> length (requests (snd (snd (load_config secure fingerprint a w))))
                  = length (requests w)
                    + (if tokenless_grant (endpoint w (length (requests w))) then 2 else 1)
              \<and> files (snd (snd (load_config secure fingerprint a w))) p
                  = granted_line (now w)
                      (endpoint w (length (requests w)
                         + (if tokenless_grant (endpoint w (length (requests w)))
                            then 1 else 0)))
              \<and> files (snd (snd (load_config secure fingerprint a w))) (p @ ''.config_hash'')
                  = Some (fingerprint (get_or raw ''appId'' (JStr []))
                                      (get_or raw ''appSecret'' (JStr []))
                                      (get_or raw ''voipnowHost'' (JStr []))))
         \<and> (strip stored = fingerprint (get_or raw ''appId'' (JStr []))
                              (get_or raw ''appSecret'' (JStr []))
                              (get_or raw ''voipnowHost'' (JStr []))
            \<and> files w p = Some (token_line issued expires secret)
            \<and> now w < expires - 300
          \<longrightarrow> fst (load_config secure fingerprint a w) = Returned
              \<and> snd (snd (load_config secure fingerprint a w)) = w)"
proof -
  obtain m1 where v: "validate_config secure (mgr a) raw = (Inr Accept, m1)"
    using assms(3) by (cases "validate_config secure (mgr a) raw") auto
  show ?thesis
  proof (intro conjI impI)
    assume d: "strip stored \<noteq> fingerprint (get_or raw ''appId'' (JStr []))
                            (get_or raw ''appSecret'' (JStr []))
                            (get_or raw ''voipnowHost'' (JStr []))"
    note r = changed_fingerprint_reload
               [where fingerprint = fingerprint, OF assms(1,2) v assms(4-6) d]
    from r(1)
    show "length (requests (snd (snd (load_config secure fingerprint a w))))
            = length (requests w)
              + (if tokenless_grant (endpoint w (length (requests w))) then 2 else 1)" .
    from r(2)
    show "files (snd (snd (load_config secure fingerprint a w))) p
            = granted_line (now w)
                (endpoint w (length (requests w)
                   + (if tokenless_grant (endpoint w (length (requests w)))
                      then 1 else 0)))" .
    from r(3)
    show "files (snd (snd (load_config secure fingerprint a w))) (p @ ''.config_hash'')
            = Some (fingerprint (get_or raw ''appId'' (JStr []))
                                (get_or raw ''appSecret'' (JStr []))
                                (get_or raw ''voipnowHost'' (JStr [])))" .
  next
    assume s: "strip stored = fingerprint (get_or raw ''appId'' (JStr []))
                              (get_or raw ''appSecret'' (JStr []))
                              (get_or raw ''voipnowHost'' (JStr []))
               \<and> files w p = Some (token_line issued expires secret)
               \<and> now w < expires - 300"
    then have s1: "strip stored = fingerprint (get_or raw ''appId'' (JStr []))
                              (get_or raw ''appSecret'' (JStr []))
                              (get_or raw ''voipnowHost'' (JStr []))"
      and s2: "files w p = Some (token_line issued expires secret)"
      and s3: "now w < expires - 300"
      by simp_all
    from unchanged_fingerprint_keeps_token
           [where fingerprint = fingerprint, OF assms(1,2) v assms(4-6) s1 s2 s3]
    show "fst (load_config secure fingerprint a w) = Returned"
      and "snd (snd (load_config secure fingerprint a w)) = w" .
  qed
qed

lemma strip_old_digest:
  "strip ''A1|S1|https://pbx.example.com'' = ''A1|S1|https://pbx.example.com''"
  by (simp add: strip_def isspace_def)

lemma read_old_digest:
  "read_text rotated_world (''/tmp/tok'' @ ''.config_hash'')
     = Some ''A1|S1|https://pbx.example.com''"
  "read_text steady_world (''/tmp/tok'' @ ''.config_hash'')
     = Some ''A1|S1|https://pbx.example.com''"
  by (simp_all add: read_text_def rotated_world_def steady_world_def)

theorem fingerprint_change_forces_reissue_witness:
  "strip ''A1|S1|https://pbx.example.com''
     \<noteq> demo_fingerprint (JStr ''A1'') (JStr ''S2'') (JStr ''https://pbx.example.com'')
   \<and> files rotated_world ''/tmp/tok'' = Some (token_line 500 4100 ''old'')
   \<and> now rotated_world < 4100 - 300
   \<and> length (requests (snd (snd (load_config False demo_fingerprint loaded_app rotated_world)))) = 1
   \<and> files (snd (snd (load_config False demo_fingerprint loaded_app rotated_world))) ''/tmp/tok''
       = Some (token_line 1000 4600 ''abc'')
   \<and> files (snd (snd (load_config False demo_fingerprint loaded_app rotated_world)))
       ''/tmp/tok.config_hash''
       = Some ''A1|S2|https://pbx.example.com''
   \<and> fst (load_config False demo_fingerprint loaded_app steady_world) = Returned
   \<and> snd (snd (load_config False demo_fingerprint loaded_app steady_world)) = steady_world"
proof -
  have l: "\<not> lock_held loaded_app" by (rule first_load_demo)
  have c: "config_data (mgr loaded_app) = demo_config" by (rule first_load_demo)
  have d1: "config_doc rotated_world = Document rotated_config"
    and d2: "config_doc steady_world = Document demo_config"
    by (simp_all add: rotated_world_def steady_world_def)
  have v1: "fst (validate_config False (mgr loaded_app) rotated_config) = Inr Accept"
    and v2: "fst (validate_config False (mgr loaded_app) demo_config) = Inr Accept"
    by (simp_all add: c rotated_config_def eval_defs)
  have p1: "map_of rotated_config ''voipnowTokenFile'' = Some (JStr ''/tmp/tok'')"
    and p2: "map_of demo_config ''voipnowTokenFile'' = Some (JStr ''/tmp/tok'')"
    by (simp_all add: rotated_config_def demo_config_def)
  note h1 = read_old_digest(1) and h2 = read_old_digest(2)
  have f1: "get_or rotated_config ''appId'' (JStr []) = JStr ''A1''"
    "get_or rotated_config ''appSecret'' (JStr []) = JStr ''S2''"
    "get_or rotated_config ''voipnowHost'' (JStr []) = JStr ''https://pbx.example.com''"
    "get_or demo_config ''appId'' (JStr []) = JStr ''A1''"
    "get_or demo_config ''appSecret'' (JStr []) = JStr ''S1''"
    "get_or demo_config ''voipnowHost'' (JStr []) = JStr ''https://pbx.example.com''"
    by (simp_all add: get_or_def rotated_config_def demo_config_def)
  have ne: "strip ''A1|S1|https://pbx.example.com''
     \<noteq> demo_fingerprint (JStr ''A1'') (JStr ''S2'') (JStr ''https://pbx.example.com'')"
    and eq: "strip ''A1|S1|https://pbx.example.com''
     = demo_fingerprint (JStr ''A1'') (JStr ''S1'') (JStr ''https://pbx.example.com'')"
    and fp: "demo_fingerprint (JStr ''A1'') (JStr ''S2'') (JStr ''https://pbx.example.com'')
     = ''A1|S2|https://pbx.example.com''"
    by (simp_all add: strip_old_digest demo_fingerprint_def)
  have t: "files rotated_world ''/tmp/tok'' = Some (token_line 500 4100 ''old'')"
    "files steady_world ''/tmp/tok'' = Some (token_line 500 4100 ''old'')"
    "now rotated_world < 4100 - 300" "now steady_world < 4100 - 300"
    "requests rotated_world = []"
    "\<not> tokenless_grant (endpoint rotated_world 0)"
    by (simp_all add: rotated_world_def steady_world_def tokenless_grant_def demo_grant_def)
  have g: "granted_line (now rotated_world) (endpoint rotated_world 0)
             = Some (token_line 1000 4600 ''abc'')"
    by (simp add: rotated_world_def granted_line_def demo_grant_def token_data_of_def)
  from fingerprint_change_forces_reissue
         [OF l d1 v1 p1 _ h1, of demo_fingerprint 500 4100 "''old''"]
       fingerprint_change_forces_reissue
         [OF l d2 v2 p2 _ h2, of demo_fingerprint 500 4100 "''old''"]
       ne eq fp t f1 g
  show ?thesis by simp
qed

text \<open>
  Claim C4 as stated promises exactly one reissue in every such reload. After the secret
  was edited, with an endpoint that first answers without an \<^verbatim>\<open>access_token\<close> and then
  cannot be reached, the reload returns having sent two token requests, and no token file
  is left.
\<close>

theorem fingerprint_change_forces_reissue_counterexample:
  "strip ''A1|S1|https://pbx.example.com''
     \<noteq> demo_fingerprint (JStr ''A1'') (JStr ''S2'') (JStr ''https://pbx.example.com'')
   \<and> read_text flaky_world ''/tmp/tok.config_hash'' = Some ''A1|S1|https://pbx.example.com''
   \<and> config_doc flaky_world = Document rotated_config
   \<and> requests flaky_world = []
   \<and> fst (load_config False demo_fingerprint loaded_app flaky_world) = Returned
   \<and> length (requests (snd (snd (load_config False demo_fingerprint loaded_app flaky_world)))) = 2
   \<and> files (snd (snd (load_config False demo_fingerprint loaded_app flaky_world))) ''/tmp/tok''
       = None"
proof -
  have c: "config_data (mgr loaded_app) = demo_config" and l: "\<not> lock_held loaded_app"
    by (rule first_load_demo)+
  have "fst (load_config False demo_fingerprint loaded_app flaky_world) = Returned
        \<and> length (requests (snd (snd (load_config False demo_fingerprint loaded_app flaky_world)))) = 2
        \<and> files (snd (snd (load_config False demo_fingerprint loaded_app flaky_world))) ''/tmp/tok''
            = None"
    using c l
    by (simp add: load_config_unfold [of _ _ loaded_app] flaky_world_def rotated_world_def
          rotated_config_def tokenless_reply_def eval_defs strip_old_digest demo_fingerprint_def
          raise_if_first_def)
  then show ?thesis
    by (simp add: strip_old_digest demo_fingerprint_def flaky_world_def rotated_world_def
          read_text_def)
qed

subsection \<open>Which documents a first load refuses\<close>

lemma post_token_no_config_error:
  "post_token req w = (Inl e, w1) \<Longrightarrow> e \<noteq> ConfigurationError msg"
  by (auto simp: post_token_def Let_def split: reply.splits option.splits if_splits)

lemma token_data_of_no_config_error:
  "token_data_of t js = Inl e \<Longrightarrow> e \<noteq> ConfigurationError msg"
  by (auto simp: token_data_of_def split: option.splits)

lemma generate_token_no_config_error:
  assumes "generate_token cfg w = (Inl e, w1)"
  shows "e \<noteq> ConfigurationError msg"
  using assms post_token_no_config_error token_data_of_no_config_error
  by (auto simp: generate_token_def split: option.splits json.splits prod.splits sum.splits)

lemma handle_exn_not_refused:
  assumes "config_data m \<noteq> []" and "\<And>msg. e \<noteq> ConfigurationError msg"
  shows "\<not> refused (handle_exn e m)"
  using assms by (cases e) (auto simp: raise_if_first_def)

lemma refresh_token_blank:
  assumes "get_or (config_data m) ''voipnowTokenFile'' JNull = JStr []"
  shows "refresh_token fingerprint m w
           = (Inl (ConfigurationError ''Token file not specified in config.''), m, w)"
  using assms by (simp add: refresh_token_def)

lemma refresh_token_path:
  assumes "get_or (config_data m) ''voipnowTokenFile'' JNull = JStr p" and "p \<noteq> []"
    and "refresh_token fingerprint m w = (r, m3, w3)"
  shows "config_data m3 = config_data m" and "r \<noteq> Inl (ConfigurationError msg)"
proof -
  obtain ch w1 where c: "check_config_change fingerprint (config_data m) (p @ ''.config_hash'') w
                           = (ch, w1)"
    by (cases "check_config_change fingerprint (config_data m) (p @ ''.config_hash'') w")
  show "config_data m3 = config_data m"
    using assms c
    by (auto simp: refresh_token_def split: if_splits prod.splits sum.splits)
  show "r \<noteq> Inl (ConfigurationError msg)"
    using assms c generate_token_no_config_error [where msg = msg]
    by (auto simp: refresh_token_def split: if_splits prod.splits sum.splits)
qed

lemma load_config_not_refused:
  assumes "\<not> lock_held a" and "try_body secure fingerprint (mgr a) w = (r, m1, w1)"
    and "\<And>msg. r \<noteq> Inl (ConfigurationError msg)" and "config_data m1 \<noteq> []"
  shows "\<not> refused (fst (load_config secure fingerprint a w))"
    and "mgr (fst (snd (load_config secure fingerprint a w))) = m1"
proof -
  have h: "\<And>e. r = Inl e \<Longrightarrow> \<not> refused (handle_exn e m1)"
    using assms(3,4) by (intro handle_exn_not_refused) auto
  have g: "\<And>e w2. generate_token (config_data m1) w1 = (Inl e, w2) \<Longrightarrow> \<not> refused (Raised e)"
  proof -
    fix e w2 assume "generate_token (config_data m1) w1 = (Inl e, w2)"
    from generate_token_no_config_error [OF this] show "\<not> refused (Raised e)"
      by (cases e) auto
  qed
  show "\<not> refused (fst (load_config secure fingerprint a w))"
    using assms(1,2) h g
    by (subst load_config_unfold) (auto split: sum.splits prod.splits)
  show "mgr (fst (snd (load_config secure fingerprint a w))) = m1"
    using assms(1,2)
    by (subst load_config_unfold) (auto split: sum.splits prod.splits)
qed

lemma load_config_refused:
  assumes "\<not> lock_held a"
    and "try_body secure fingerprint (mgr a) w = (Inl (ConfigurationError msg), m1, w1)"
  shows "load_config secure fingerprint a w
           = (Raised (ConfigurationError msg), \<lparr>mgr = m1, lock_held = False\<rparr>, w1)"
  using load_config_handled [OF assms] by simp

lemma first_validation_outcome:
  assumes "config_data m = []" and "typed_document raw"
  shows "fst (validate_config secure m raw) = Inr Accept
         \<or> (\<exists>msg. fst (validate_config secure m raw) = Inl (ConfigurationError msg))"
proof -
  from assms(2) obtain lvl where l: "get_or raw ''logLevel'' (JStr ''INFO'') = JStr lvl"
    by (auto simp: typed_document_def string_or_absent_def get_or_def
             split: option.splits json.splits)
  from assms(2) obtain host where h: "get_or raw ''voipnowHost'' (JStr []) = JStr host"
    by (auto simp: typed_document_def string_or_absent_def get_or_def
             split: option.splits json.splits)
  show ?thesis
    using assms(1) l h by (simp add: validate_config_def Let_def set_log_level_string)
qed

lemma spec_valid_iff:
  "spec_valid raw \<longleftrightarrow>
     missing_keys raw = [] \<and> extra_keys raw = []
     \<and> (\<exists>host. map_of raw ''voipnowHost'' = Some (JStr host) \<and> valid_scheme host)"
  by (auto simp: spec_valid_def missing_keys_Nil extra_keys_Nil valid_scheme_def
           split: option.splits json.splits)

lemma try_body_outcome:
  assumes "config_doc w = Document raw"
    and "validate_config secure m raw = (Inr Accept, m1)"
    and "map_of raw ''voipnowTokenFile'' = Some (JStr p)" and "p \<noteq> []"
  shows "\<exists>r m3 w3. try_body secure fingerprint m w = (r, m3, w3)
           \<and> (\<forall>msg. r \<noteq> Inl (ConfigurationError msg))
           \<and> config_data m3 = normalize_insecure raw"
proof -
  let ?m2 = "m1\<lparr>config_data := normalize_insecure raw\<rparr>"
  have gp: "get_or (config_data ?m2) ''voipnowTokenFile'' JNull = JStr p"
    using assms(3) by (simp add: get_or_def map_of_normalize_insecure)
  obtain r m3 w3 where rt: "refresh_token fingerprint ?m2 w = (r, m3, w3)"
    by (cases "refresh_token fingerprint ?m2 w")
  note rp = refresh_token_path [OF gp assms(4) rt]
  show ?thesis
  proof (cases r)
    case (Inl e)
    with rp try_body_accept [OF assms(1,2), of fingerprint] rt show ?thesis by simp
  next
    case (Inr u)
    with rp(1) try_body_accept [OF assms(1,2), of fingerprint] rt show ?thesis
      by (simp add: start_token_expiration_check_def)
  qed
qed

text \<open>
  Claim C3, as the code has it. Take a first load (no configuration yet, the lock free)
  of a document in which \<^verbatim>\<open>logLevel\<close>, \<^verbatim>\<open>voipnowHost\<close> and \<^verbatim>\<open>voipnowTokenFile\<close>, where
  present, are strings. The load ends in a ConfigurationError, for every state of the
  token file and every answer of the token endpoint, unless all of this holds: the
  required keys are present, no key is outside the allowed ones, \<^verbatim>\<open>voipnowHost\<close> starts
  with \<^verbatim>\<open>http://\<close> or \<^verbatim>\<open>https://\<close>, in secure mode \<^verbatim>\<open>authTokenMCP\<close> is present, and
  \<^verbatim>\<open>voipnowTokenFile\<close> is not the empty string. When all of this holds the load does not
  end in a ConfigurationError, and the manager's configuration is the document, with its
  \<^verbatim>\<open>insecure\<close> flag normalised.
\<close>

theorem first_load_validation:
  assumes "config_data (mgr a) = []" and "\<not> lock_held a"
    and "config_doc w = Document raw" and "typed_document raw"
  shows "(\<not> refused (fst (load_config secure fingerprint a w))
          \<longleftrightarrow> spec_valid raw
              \<and> (secure \<longrightarrow> has_key raw ''authTokenMCP'')
              \<and> get_or raw ''voipnowTokenFile'' JNull \<noteq> JStr [])
         \<and> (\<not> refused (fst (load_config secure fingerprint a w))
            \<longrightarrow> config_data (mgr (fst (snd (load_config secure fingerprint a w))))
                  = normalize_insecure raw)"
proof -
  from assms(4) obtain lvl where lvl: "get_or raw ''logLevel'' (JStr ''INFO'') = JStr lvl"
    by (auto simp: typed_document_def string_or_absent_def get_or_def
             split: option.splits json.splits)
  note vi = validate_accept_iff [OF assms(1) lvl, of secure]
  show ?thesis
  proof (cases "fst (validate_config secure (mgr a) raw) = Inr Accept")
    case False
    with first_validation_outcome [OF assms(1,4), of secure]
    obtain msg m1 where "validate_config secure (mgr a) raw = (Inl (ConfigurationError msg), m1)"
      by (cases "validate_config secure (mgr a) raw") auto
    then have "try_body secure fingerprint (mgr a) w = (Inl (ConfigurationError msg), m1, w)"
      using assms(3) by (simp add: try_body_def)
    from load_config_refused [OF assms(2) this]
    have "refused (fst (load_config secure fingerprint a w))" by simp
    moreover have "\<not> (spec_valid raw \<and> (secure \<longrightarrow> has_key raw ''authTokenMCP''))"
      using False vi by (simp add: spec_valid_iff)
    ultimately show ?thesis by blast
  next
    case True
    then obtain m1 where v: "validate_config secure (mgr a) raw = (Inr Accept, m1)"
      by (cases "validate_config secure (mgr a) raw") auto
    from True vi have sv: "spec_valid raw" "secure \<longrightarrow> has_key raw ''authTokenMCP''"
      by (simp_all add: spec_valid_iff)
    from True vi have "has_key raw ''voipnowTokenFile''"
      by (simp add: missing_keys_Nil required_keys_def)
    with assms(4) obtain p where p: "map_of raw ''voipnowTokenFile'' = Some (JStr p)"
      by (auto simp: typed_document_def string_or_absent_def has_key_def
               split: option.splits json.splits)
    then have gr: "get_or raw ''voipnowTokenFile'' JNull = JStr p"
      by (simp add: get_or_def)
    show ?thesis
    proof (cases "p = []")
      case True
      let ?m2 = "m1\<lparr>config_data := normalize_insecure raw\<rparr>"
      have "get_or (config_data ?m2) ''voipnowTokenFile'' JNull = JStr []"
        using p True by (simp add: get_or_def map_of_normalize_insecure)
      from refresh_token_blank [OF this, of fingerprint w]
           try_body_accept [OF assms(3) v, of fingerprint]
      have "try_body secure fingerprint (mgr a) w
              = (Inl (ConfigurationError ''Token file not specified in config.''), ?m2, w)"
        by simp
      from load_config_refused [OF assms(2) this]
      have "refused (fst (load_config secure fingerprint a w))" by simp
      with gr True show ?thesis by simp
    next
      case False
      from try_body_outcome [OF assms(3) v p False, of fingerprint]
      obtain r m3 w3 where tb: "try_body secure fingerprint (mgr a) w = (r, m3, w3)"
        and nr: "\<And>msg. r \<noteq> Inl (ConfigurationError msg)"
        and cd: "config_data m3 = normalize_insecure raw"
        by blast
      have "map_of (normalize_insecure raw) ''voipnowTokenFile'' = Some (JStr p)"
        using p by (simp add: map_of_normalize_insecure)
      then have ne: "config_data m3 \<noteq> []" using cd by auto
      note l = load_config_not_refused [OF assms(2) tb nr ne]
      from l cd sv gr False show ?thesis by simp
    qed
  qed
qed

theorem first_load_validation_witness:
  "config_data (mgr init_app) = [] \<and> \<not> lock_held init_app
   \<and> config_doc demo_world = Document demo_config \<and> typed_document demo_config
   \<and> spec_valid demo_config
   \<and> get_or demo_config ''voipnowTokenFile'' JNull = JStr ''/tmp/tok''
   \<and> \<not> refused (fst (load_config False demo_fingerprint init_app demo_world))
   \<and> config_data (mgr (fst (snd (load_config False demo_fingerprint init_app demo_world))))
       = demo_config"
proof -
  have a: "config_data (mgr init_app) = []" "\<not> lock_held init_app"
    by (simp_all add: init_app_def init_manager_def)
  have d: "config_doc demo_world = Document demo_config" by (simp add: demo_world_def)
  have t: "typed_document demo_config"
    by (simp add: typed_document_def string_or_absent_def demo_config_def)
  have s: "spec_valid demo_config"
    by (simp add: spec_valid_def demo_config_def required_keys_def allowed_keys_def
          has_key_def startswith_def)
  have g: "get_or demo_config ''voipnowTokenFile'' JNull = JStr ''/tmp/tok''"
    by (simp add: get_or_def demo_config_def)
  have n: "normalize_insecure demo_config = demo_config"
    by (simp add: normalize_insecure_def demo_config_def)
  from first_load_validation [OF a d t, of False demo_fingerprint] a d t s g n
  show ?thesis by simp
qed

text \<open>
  Claim C3 as stated makes the three conditions sufficient. Two first loads of documents
  that meet all three are refused: in secure mode, the document without \<^verbatim>\<open>authTokenMCP\<close>;
  and, in either mode, the document whose \<^verbatim>\<open>voipnowTokenFile\<close> is the empty string, which
  passes every check at the head of \<^verbatim>\<open>load_config\<close> and is refused where the token file
  is about to be used.
\<close>

theorem first_load_validation_counterexample:
  "spec_valid demo_config
   \<and> fst (load_config True demo_fingerprint init_app demo_world)
       = Raised (ConfigurationError ''authTokenMCP is missing in config file.'')
   \<and> spec_valid blank_path_config
   \<and> fst (validate_config False (mgr init_app) blank_path_config) = Inr Accept
   \<and> fst (load_config False demo_fingerprint init_app
            (demo_world\<lparr>config_doc := Document blank_path_config\<rparr>))
       = Raised (ConfigurationError ''Token file not specified in config.'')"
proof -
  have s: "spec_valid demo_config" "spec_valid blank_path_config"
    by (simp_all add: spec_valid_def demo_config_def blank_path_config_def required_keys_def
          allowed_keys_def has_key_def startswith_def)
  have v: "fst (validate_config False (mgr init_app) blank_path_config) = Inr Accept"
    by (simp add: blank_path_config_def eval_defs)
  have l1: "fst (load_config True demo_fingerprint init_app demo_world)
       = Raised (ConfigurationError ''authTokenMCP is missing in config file.'')"
    by (simp add: load_config_unfold eval_defs)
  have l2: "fst (load_config False demo_fingerprint init_app
            (demo_world\<lparr>config_doc := Document blank_path_config\<rparr>))
       = Raised (ConfigurationError ''Token file not specified in config.'')"
    by (simp add: load_config_unfold blank_path_config_def eval_defs)
  from s v l1 l2 show ?thesis by simp
qed

end
